theory Spec2Isabelle
  imports Main
begin

section \<open>Data model\<close>

text \<open>
  The module \<^verbatim>\<open>database.py\<close> stores a graph of JSON documents in two relations of an
  SQLite file. Documents are Python dictionaries with string keys
  (\<^verbatim>\<open>Dict[str, Any]\<close>); Python compares dictionaries without regard to the order of
  their keys, so a document is a map from keys to JSON values. Identifiers are
  \<^verbatim>\<open>Union[str, int]\<close>.
\<close>

datatype json =
    JNull
  | JBool bool
  | JInt int
  | JStr string
  | JArr "json list"
  | JObj "(string \<times> json) list"

type_synonym doc = "string \<rightharpoonup> json"

datatype ident = IdStr string | IdInt int

fun json_of_ident :: "ident \<Rightarrow> json" where
  "json_of_ident (IdStr s) = JStr s"
| "json_of_ident (IdInt n) = JInt n"

text \<open>The exceptions that reach the caller: all of them come from the sqlite3 driver
  or from tuple unpacking.\<close>

datatype error = OperationalError | IntegrityError | ValueError | IndexError

text \<open>
  The two relations. The node relation has the identifier as its key and one document
  per identifier; the edge relation is a list of rows, since the same pair of nodes may
  be joined by several edges.
\<close>

record db =
  nodes :: "json \<rightharpoonup> doc"
  edges :: "(json \<times> json \<times> doc) list"

text \<open>
  Dictionaries are Python objects: a function that receives one receives a reference.
  The store maps the address of each dictionary object of the caller to its content.
\<close>

type_synonym addr = nat

type_synonym store = "addr \<Rightarrow> doc"

text \<open>
  What a unit of work sees and changes through the cursor it is given: the connection's
  view of the database (\<open>working\<close>, with the changes of the open transaction), the
  committed content of the file (\<open>durable\<close>: a unit can commit, through
  \<^verbatim>\<open>cursor.connection\<close> or \<^verbatim>\<open>cursor.executescript\<close>), whether the connection enforces
  foreign keys, the names of the statement files the cursor has executed so far, and the
  caller's dictionary objects.
\<close>

record session =
  working :: db
  durable :: db
  foreign_keys :: bool
  executed :: "string list"
  heap :: store

section \<open>The statements\<close>

text \<open>
  Modelled from the spec: the statement files \<^verbatim>\<open>sql/insert-node.sql\<close>,
  \<^verbatim>\<open>update-node.sql\<close>, \<^verbatim>\<open>delete-node.sql\<close>, \<^verbatim>\<open>insert-edge.sql\<close>,
  \<^verbatim>\<open>delete-edge.sql\<close>, the schema and the identifier lookup are not among the source
  files; \<^verbatim>\<open>database.py\<close> only names them and binds their parameters. The spec
  describes the node relation as "identifier primary key + document column" and the edge
  relation as "source id, target id with foreign keys to nodes, document column".
  \<^verbatim>\<open>insert-node.sql\<close> is given the document alone, so the key of the new row is the
  document's \<^verbatim>\<open>"id"\<close>; a document without one has no key and is rejected, as is a key
  that is already taken.
\<close>

definition insert_node_sql :: "doc \<Rightarrow> db \<Rightarrow> error + db" where
  "insert_node_sql body d =
     (case body ''id'' of
        None \<Rightarrow> Inl IntegrityError
      | Some k \<Rightarrow>
          if k = JNull \<or> nodes d k \<noteq> None then Inl IntegrityError
          else Inr (d\<lparr>nodes := (nodes d)(k \<mapsto> body)\<rparr>))"

text \<open>Modelled from the spec: \<^verbatim>\<open>update-node.sql\<close> is given the new document and
  the identifier; it rewrites the document of the row with that identifier, if any.\<close>

definition update_node_sql :: "doc \<Rightarrow> json \<Rightarrow> db \<Rightarrow> error + db" where
  "update_node_sql body k d =
     Inr (if nodes d k \<noteq> None then d\<lparr>nodes := (nodes d)(k \<mapsto> body)\<rparr> else d)"

text \<open>Modelled from the spec: \<^verbatim>\<open>delete-edge.sql\<close> is given the identifier twice and
  deletes "all edges where the node is source or target".\<close>

definition delete_edge_sql :: "json \<Rightarrow> json \<Rightarrow> db \<Rightarrow> error + db" where
  "delete_edge_sql s t d =
     Inr (d\<lparr>edges := filter (\<lambda>(src, tgt, props). src \<noteq> s \<and> tgt \<noteq> t) (edges d)\<rparr>)"

text \<open>Modelled from the spec: \<^verbatim>\<open>delete-node.sql\<close> deletes the node row. With
  foreign keys enforced, a row that an edge still references cannot be deleted.\<close>

definition referenced :: "json \<Rightarrow> db \<Rightarrow> bool" where
  "referenced k d = (\<exists>(src, tgt, props) \<in> set (edges d). src = k \<or> tgt = k)"

definition delete_node_sql :: "bool \<Rightarrow> json \<Rightarrow> db \<Rightarrow> error + db" where
  "delete_node_sql fk k d =
     (if fk \<and> nodes d k \<noteq> None \<and> referenced k d then Inl IntegrityError
      else Inr (d\<lparr>nodes := (nodes d)(k := None)\<rparr>))"

text \<open>Modelled from the spec: \<^verbatim>\<open>insert-edge.sql\<close> appends an edge row; with foreign
  keys enforced it "fails if referential integrity is violated, i.e. either endpoint
  does not exist as a node".\<close>

definition insert_edge_sql :: "bool \<Rightarrow> json \<times> json \<times> doc \<Rightarrow> db \<Rightarrow> error + db" where
  "insert_edge_sql fk e d =
     (case e of (s, t, props) \<Rightarrow>
        if fk \<and> (nodes d s = None \<or> nodes d t = None) then Inl IntegrityError
        else Inr (d\<lparr>edges := edges d @ [(s, t, props)]\<rparr>))"

text \<open>\<^verbatim>\<open>cursor.execute\<close> of a named statement: the statement is recorded, and it either
  raises, leaving the connection's view as it was, or changes the view.\<close>

definition execute :: "string \<Rightarrow> (db \<Rightarrow> error + db) \<Rightarrow> session \<Rightarrow> (error + unit) \<times> session" where
  "execute name stmt c =
     (let c' = c\<lparr>executed := executed c @ [name]\<rparr> in
      case stmt (working c') of
        Inl e \<Rightarrow> (Inl e, c')
      | Inr d \<Rightarrow> (Inr (), c'\<lparr>working := d\<rparr>))"

text \<open>\<^verbatim>\<open>cursor.executemany\<close>: the statement once per parameter tuple, in order, until one
  raises.\<close>

fun executemany ::
  "string \<Rightarrow> ('p \<Rightarrow> db \<Rightarrow> error + db) \<Rightarrow> 'p list \<Rightarrow> session \<Rightarrow> (error + unit) \<times> session" where
  "executemany name stmt [] c = (Inr (), c)"
| "executemany name stmt (p # ps) c =
     (case execute name (stmt p) c of
        (Inl e, c') \<Rightarrow> (Inl e, c')
      | (Inr u, c') \<Rightarrow> executemany name stmt ps c')"

section \<open>The transaction executor\<close>

text \<open>
  The world outside a call of \<open>atomic\<close>: the committed content of the database file,
  what has happened to connections so far (each event is a call that completed, except
  \<open>Invoke\<close>, which is the call of the unit of work), the caller's dictionary objects,
  and which calls of the driver raise: \<^verbatim>\<open>sqlite3.connect\<close>, \<^verbatim>\<open>connection.cursor\<close>, the
  pragma, and \<^verbatim>\<open>connection.commit\<close>, which may depend on what the unit of work has
  done to the connection. \<^verbatim>\<open>connection.close\<close> is taken to succeed.
\<close>

datatype event = Connect | Pragma_foreign_keys | Invoke | Commit | Close

record world =
  disk :: db
  connect_error :: "error option"
  cursor_error :: "error option"
  pragma_error :: "error option"
  commit_error :: "session \<Rightarrow> error option"
  trace :: "event list"
  objects :: store

text \<open>The cursor handed to the unit of work: a view of the committed content, with
  \<^verbatim>\<open>PRAGMA foreign_keys = TRUE\<close> already executed on it.\<close>

definition begin_session :: "world \<Rightarrow> session" where
  "begin_session w =
     \<lparr>working = disk w, durable = disk w, foreign_keys = True,
      executed = [''PRAGMA foreign_keys = TRUE;''], heap = objects w\<rparr>"

text \<open>
  \<^verbatim>\<open>
  connection = None
  try:
      connection = sqlite3.connect(db_file)
      cursor = connection.cursor()
      cursor.execute("PRAGMA foreign_keys = TRUE;")
      results = cursor_exec_fn(cursor)
      connection.commit()
  finally:
      if connection:
          connection.close()
  return results
  \<close>
  When \<^verbatim>\<open>connect\<close> raises, \<^verbatim>\<open>connection\<close> is still \<^verbatim>\<open>None\<close> and nothing is closed.
  When a later call raises, the rest of the \<^verbatim>\<open>try\<close> block is skipped, \<^verbatim>\<open>close\<close>
  discards the changes of the open transaction, and the file keeps what was committed:
  its former content, or what the unit of work committed itself. Dictionary objects are
  not part of the transaction: what the unit of work did to them stays.
\<close>

definition atomic :: "world \<Rightarrow> (session \<Rightarrow> (error + 'a) \<times> session) \<Rightarrow> (error + 'a) \<times> world" where
  "atomic w cursor_exec_fn =
     (case connect_error w of
        Some e \<Rightarrow> (Inl e, w)
      | None \<Rightarrow>
          (case cursor_error w of
             Some e \<Rightarrow> (Inl e, w\<lparr>trace := trace w @ [Connect, Close]\<rparr>)
           | None \<Rightarrow>
               (case pragma_error w of
                  Some e \<Rightarrow> (Inl e, w\<lparr>trace := trace w @ [Connect, Close]\<rparr>)
                | None \<Rightarrow>
                    (case cursor_exec_fn (begin_session w) of
                       (Inl e, c) \<Rightarrow>
                         (Inl e,
                          w\<lparr>disk := durable c,
                            trace := trace w @ [Connect, Pragma_foreign_keys, Invoke, Close],
                            objects := heap c\<rparr>)
                     | (Inr results, c) \<Rightarrow>
                         (case commit_error w c of
                            Some e \<Rightarrow>
                              (Inl e,
                               w\<lparr>disk := durable c,
                                 trace := trace w @ [Connect, Pragma_foreign_keys, Invoke, Close],
                                 objects := heap c\<rparr>)
                          | None \<Rightarrow>
                              (Inr results,
                               w\<lparr>disk := working c,
                                 trace := trace w
                                   @ [Connect, Pragma_foreign_keys, Invoke, Commit, Close],
                                 objects := heap c\<rparr>))))))"

text \<open>\<^verbatim>\<open>cursor.connection.commit()\<close>, as a unit of work can call it.\<close>

definition commit :: "session \<Rightarrow> session" where
  "commit c = c\<lparr>durable := working c\<rparr>"

text \<open>
  \<^verbatim>\<open>cursor.executescript\<close>: a pending transaction is committed first, and the
  statements of the script then run outside any transaction, each one durable as soon as
  it has run; the first that raises ends the script.
\<close>

fun run_script :: "(db \<Rightarrow> error + db) list \<Rightarrow> session \<Rightarrow> (error + unit) \<times> session" where
  "run_script [] c = (Inr (), c)"
| "run_script (stmt # script) c =
     (case stmt (working c) of
        Inl e \<Rightarrow> (Inl e, c)
      | Inr d \<Rightarrow> run_script script (c\<lparr>working := d, durable := d\<rparr>))"

definition executescript ::
  "string \<Rightarrow> (db \<Rightarrow> error + db) list \<Rightarrow> session \<Rightarrow> (error + unit) \<times> session" where
  "executescript name script c =
     run_script script ((commit c)\<lparr>executed := executed c @ [name]\<rparr>)"

text \<open>
  \<^verbatim>\<open>
  def initialize(db_file, schema_file="schema.sql"):
      def _init(cursor):
          cursor.executescript(read_sql(schema_file))
      return atomic(db_file, _init)
  \<close>
  The content of the schema file is a parameter: the statements of the script.
\<close>

definition initialize ::
  "world \<Rightarrow> string \<Rightarrow> (db \<Rightarrow> error + db) list \<Rightarrow> (error + unit) \<times> world" where
  "initialize w schema_file script = atomic w (executescript schema_file script)"

section \<open>The node store\<close>

text \<open>
  \<^verbatim>\<open>
  def _set_id(identifier, data):
      if identifier is not None:
          data["id"] = identifier
      return data
  \<close>
  \<open>set_id\<close> gives the content of the dictionary afterwards. The dictionary returned is
  the object that was passed in: where the argument is a dictionary of the caller, the
  calling function below writes the new content to that object's address.
\<close>

definition set_id :: "ident option \<Rightarrow> doc \<Rightarrow> doc" where
  "set_id identifier data =
     (case identifier of
        None \<Rightarrow> data
      | Some i \<Rightarrow> data(''id'' \<mapsto> json_of_ident i))"

text \<open>\<^verbatim>\<open>_insert_node\<close>: \<^verbatim>\<open>data\<close> is the caller's dictionary, at address \<open>data\<close>;
  \<^verbatim>\<open>json.dumps\<close> takes its content after \<^verbatim>\<open>_set_id\<close> has changed it in place.\<close>

definition insert_node :: "ident option \<Rightarrow> addr \<Rightarrow> session \<Rightarrow> (error + unit) \<times> session" where
  "insert_node identifier data c =
     (let body = set_id identifier (heap c data);
          c' = c\<lparr>heap := (heap c)(data := body)\<rparr>
      in execute ''insert-node.sql'' (insert_node_sql body) c')"

definition add_node :: "addr \<Rightarrow> ident option \<Rightarrow> session \<Rightarrow> (error + unit) \<times> session" where
  "add_node data identifier c = insert_node identifier data c"

text \<open>\<^verbatim>\<open>[(json.dumps(_set_id(i, n)),) for i, n in zip(ids, nodes)]\<close>: the whole
  parameter list is built, dictionary by dictionary, before the first row is written.\<close>

fun set_ids :: "(ident option \<times> addr) list \<Rightarrow> store \<Rightarrow> doc list \<times> store" where
  "set_ids [] h = ([], h)"
| "set_ids ((i, n) # rest) h =
     (let body = set_id i (h n);
          (bodies, h') = set_ids rest (h(n := body))
      in (body # bodies, h'))"

definition add_nodes :: "addr list \<Rightarrow> ident option list \<Rightarrow> session \<Rightarrow> (error + unit) \<times> session" where
  "add_nodes nodes_arg ids c =
     (let (bodies, h') = set_ids (zip ids nodes_arg) (heap c)
      in executemany ''insert-node.sql'' insert_node_sql bodies (c\<lparr>heap := h'\<rparr>))"

text \<open>
  Modelled from the spec: \<^verbatim>\<open>find_node\<close> runs the identifier lookup, a query rendered
  from the templates, which are not among the source files: a "point lookup" that
  "returns the empty/absent result when no row matches".
  \<^verbatim>\<open>return {} if not result else json.loads(result[0])\<close>
\<close>

definition find_node :: "ident \<Rightarrow> session \<Rightarrow> doc" where
  "find_node identifier c =
     (case nodes (working c) (json_of_ident identifier) of
        None \<Rightarrow> Map.empty
      | Some body \<Rightarrow> body)"

text \<open>
  \<^verbatim>\<open>
  def _upsert_node(cursor, identifier, data):
      current_data = find_node(identifier)(cursor)
      if not current_data:
          _insert_node(cursor, identifier, data)
      else:
          updated_data = {**current_data, **data}
          cursor.execute(read_sql("update-node.sql"),
                         (json.dumps(_set_id(identifier, updated_data)), identifier))
  \<close>
  \<^verbatim>\<open>updated_data\<close> is a new dictionary, local to the call: \<^verbatim>\<open>_set_id\<close> changes it and
  not the caller's.
\<close>

definition upsert_node_inner :: "ident \<Rightarrow> addr \<Rightarrow> session \<Rightarrow> (error + unit) \<times> session" where
  "upsert_node_inner identifier data c =
     (let current_data = find_node identifier c in
      if current_data = Map.empty then insert_node (Some identifier) data c
      else
        let updated_data = current_data ++ heap c data in
        execute ''update-node.sql''
          (update_node_sql (set_id (Some identifier) updated_data) (json_of_ident identifier)) c)"

definition upsert_node :: "ident \<Rightarrow> addr \<Rightarrow> session \<Rightarrow> (error + unit) \<times> session" where
  "upsert_node identifier data c = upsert_node_inner identifier data c"

text \<open>\<^verbatim>\<open>for id_val, node in zip(ids, nodes): _upsert_node(cursor, id_val, node)\<close>\<close>

fun upsert_each :: "(ident \<times> addr) list \<Rightarrow> session \<Rightarrow> (error + unit) \<times> session" where
  "upsert_each [] c = (Inr (), c)"
| "upsert_each ((id_val, node) # rest) c =
     (case upsert_node_inner id_val node c of
        (Inl e, c') \<Rightarrow> (Inl e, c')
      | (Inr u, c') \<Rightarrow> upsert_each rest c')"

definition upsert_nodes :: "addr list \<Rightarrow> ident list \<Rightarrow> session \<Rightarrow> (error + unit) \<times> session" where
  "upsert_nodes nodes_arg ids c = upsert_each (zip ids nodes_arg) c"

text \<open>\<^verbatim>\<open>remove_node\<close>: the edges first, then the node row.\<close>

definition remove_node :: "ident \<Rightarrow> session \<Rightarrow> (error + unit) \<times> session" where
  "remove_node identifier c =
     (let k = json_of_ident identifier in
      case execute ''delete-edge.sql'' (delete_edge_sql k k) c of
        (Inl e, c') \<Rightarrow> (Inl e, c')
      | (Inr u, c') \<Rightarrow> execute ''delete-node.sql'' (delete_node_sql (foreign_keys c') k) c')"

definition remove_nodes :: "ident list \<Rightarrow> session \<Rightarrow> (error + unit) \<times> session" where
  "remove_nodes identifiers c =
     (let ks = map json_of_ident identifiers in
      case executemany ''delete-edge.sql'' (\<lambda>k. delete_edge_sql k k) ks c of
        (Inl e, c') \<Rightarrow> (Inl e, c')
      | (Inr u, c') \<Rightarrow> executemany ''delete-node.sql'' (delete_node_sql (foreign_keys c')) ks c')"

section \<open>The edge store\<close>

text \<open>The properties of an edge are only read (\<^verbatim>\<open>json.dumps(properties)\<close>), so they are
  passed as the content the dictionary has when the unit of work runs.\<close>

definition connect_nodes :: "ident \<Rightarrow> ident \<Rightarrow> doc \<Rightarrow> session \<Rightarrow> (error + unit) \<times> session" where
  "connect_nodes source_id target_id properties c =
     execute ''insert-edge.sql''
       (insert_edge_sql (foreign_keys c)
          (json_of_ident source_id, json_of_ident target_id, properties)) c"

text \<open>\<^verbatim>\<open>[(s, t, json.dumps(p)) for s, t, p in zip(sources, targets, properties)]\<close>:
  \<^verbatim>\<open>zip\<close> stops at the end of the shortest list.\<close>

definition edge_rows :: "ident list \<Rightarrow> ident list \<Rightarrow> doc list \<Rightarrow> (json \<times> json \<times> doc) list" where
  "edge_rows sources targets properties =
     map (\<lambda>(s, t, p). (json_of_ident s, json_of_ident t, p)) (zip sources (zip targets properties))"

definition connect_many_nodes ::
  "ident list \<Rightarrow> ident list \<Rightarrow> doc list \<Rightarrow> session \<Rightarrow> (error + unit) \<times> session" where
  "connect_many_nodes sources targets properties c =
     executemany ''insert-edge.sql'' (insert_edge_sql (foreign_keys c))
       (edge_rows sources targets properties) c"

section \<open>The query compiler\<close>

text \<open>
  The templates \<^verbatim>\<open>search-where.template\<close> and \<^verbatim>\<open>search-node.template\<close> are not among
  the source files. A template is taken as what its \<^verbatim>\<open>render\<close> does: a function from
  the keyword arguments it is given to text.
\<close>

datatype arg = Str string | Bool bool | Strs "string list" | NoneArg

type_synonym template = "(string \<times> arg) list \<Rightarrow> string"

definition opt_arg :: "string option \<Rightarrow> arg" where
  "opt_arg x = (case x of None \<Rightarrow> NoneArg | Some s \<Rightarrow> Str s)"

definition generate_clause ::
  "template \<Rightarrow> string option \<Rightarrow> string option \<Rightarrow> string option \<Rightarrow> bool \<Rightarrow> bool \<Rightarrow> string" where
  "generate_clause clause_template key predicate joiner tree tree_with_key =
     (let predicate = (case predicate of None \<Rightarrow> ''='' | Some p \<Rightarrow> p);
          joiner = (case joiner of None \<Rightarrow> [] | Some j \<Rightarrow> j)
      in
        if tree then
          if tree_with_key then
            clause_template
              [(''and_or'', Str joiner), (''key'', opt_arg key), (''tree'', Bool tree),
               (''predicate'', Str predicate)]
          else
            clause_template
              [(''and_or'', Str joiner), (''tree'', Bool tree), (''predicate'', Str predicate)]
        else
          clause_template
            [(''and_or'', Str joiner), (''key'', opt_arg key), (''predicate'', Str predicate),
             (''key_value'', Bool True)])"

text \<open>\<^verbatim>\<open>if key:\<close> is false for \<^verbatim>\<open>None\<close> and for the empty string.\<close>

definition generate_query ::
  "template \<Rightarrow> string list \<Rightarrow> string option \<Rightarrow> string option \<Rightarrow> bool \<Rightarrow> string" where
  "generate_query search_template where_clauses result_column key tree =
     (let result_column = (case result_column of None \<Rightarrow> ''body'' | Some col \<Rightarrow> col) in
        if tree then
          if key \<noteq> None \<and> key \<noteq> Some [] then
            search_template
              [(''result_column'', Str result_column), (''tree'', Bool tree),
               (''key'', opt_arg key), (''search_clauses'', Strs where_clauses)]
          else
            search_template
              [(''result_column'', Str result_column), (''tree'', Bool tree),
               (''search_clauses'', Strs where_clauses)]
        else
          search_template
            [(''result_column'', Str result_column), (''search_clauses'', Strs where_clauses)])"

text \<open>Rows are tuples of column values.\<close>

datatype sqlval = SqlNull | SqlInt int | SqlText string

type_synonym row = "sqlval list"

text \<open>\<^verbatim>\<open>[json.loads(item[idx]) for item in results]\<close>, with the decoder as a parameter:
  it raises on text that is not a document.\<close>

fun parse_search_results :: "(sqlval \<Rightarrow> error + doc) \<Rightarrow> row list \<Rightarrow> nat \<Rightarrow> error + doc list" where
  "parse_search_results loads [] idx = Inr []"
| "parse_search_results loads (item # results) idx =
     (if length item \<le> idx then Inl IndexError
      else
        case loads (item ! idx) of
          Inl e \<Rightarrow> Inl e
        | Inr d \<Rightarrow>
            (case parse_search_results loads results idx of
               Inl e \<Rightarrow> Inl e
             | Inr ds \<Rightarrow> Inr (d # ds)))"

text \<open>
  \<^verbatim>\<open>
  def _find_nodes(cursor):
      query = _generate_query(where_clauses, key=key, tree=tree_query)
      return _parse_search_results(cursor.execute(query, bindings).fetchall())
  \<close>
  The cursor is what it does with a query text and a sequence of bound values: the rows
  it fetches.
\<close>

definition find_nodes ::
  "template \<Rightarrow> (sqlval \<Rightarrow> error + doc) \<Rightarrow> string list \<Rightarrow> 'b list \<Rightarrow> bool \<Rightarrow> string option
     \<Rightarrow> (string \<Rightarrow> 'b list \<Rightarrow> row list) \<Rightarrow> error + doc list" where
  "find_nodes search_template loads where_clauses bindings tree_query key cursor_execute =
     (let query = generate_query search_template where_clauses None key tree_query
      in parse_search_results loads (cursor_execute query bindings) 0)"

section \<open>The traversal engine\<close>

text \<open>
  \<^verbatim>\<open>target = json.dumps(tgt)\<close> for a target that is \<^verbatim>\<open>None\<close>, an integer or a string.
  A string is written between double quotes; a quote and a backslash are escaped, a
  character outside the printable ASCII range is written as a \<^verbatim>\<open>\u\<close> escape (strings
  here are sequences of code points below 256).
\<close>

definition digit_char :: "nat \<Rightarrow> char" where
  "digit_char n = (if n < 10 then char_of (48 + n) else char_of (87 + n))"

fun show_nat :: "nat \<Rightarrow> string" where
  "show_nat n = (if n < 10 then [digit_char n] else show_nat (n div 10) @ [digit_char (n mod 10)])"

definition show_int :: "int \<Rightarrow> string" where
  "show_int i = (if i < 0 then CHR ''-'' # show_nat (nat (- i)) else show_nat (nat i))"

definition escape_char :: "char \<Rightarrow> string" where
  "escape_char ch =
     (let n = (of_char ch :: nat) in
      if ch = CHR 0x22 then [CHR 0x5C, CHR 0x22]
      else if ch = CHR 0x5C then [CHR 0x5C, CHR 0x5C]
      else if n = 8 then [CHR 0x5C, CHR ''b'']
      else if n = 12 then [CHR 0x5C, CHR ''f'']
      else if n = 10 then [CHR 0x5C, CHR ''n'']
      else if n = 13 then [CHR 0x5C, CHR ''r'']
      else if n = 9 then [CHR 0x5C, CHR ''t'']
      else if 32 \<le> n \<and> n \<le> 126 then [ch]
      else [CHR 0x5C, CHR ''u'', CHR ''0'', CHR ''0'', digit_char (n div 16), digit_char (n mod 16)])"

definition json_dumps :: "ident option \<Rightarrow> string" where
  "json_dumps tgt =
     (case tgt of
        None \<Rightarrow> ''null''
      | Some (IdInt i) \<Rightarrow> show_int i
      | Some (IdStr s) \<Rightarrow> [CHR 0x22] @ concat (map escape_char s) @ [CHR 0x22])"

text \<open>
  The loop of \<^verbatim>\<open>_traverse\<close> in identifiers-only mode, with the path built so far:
  \<^verbatim>\<open>
  for row in cursor.execute(...):
      if row:
          identifier = row[0]
          if identifier not in path:
              path.append(identifier)
              if identifier == target:
                  break
  \<close>
  \<^verbatim>\<open>target\<close> is a string, so only a text value can be equal to it.
\<close>

fun walk_ids :: "string \<Rightarrow> row list \<Rightarrow> sqlval list \<Rightarrow> sqlval list" where
  "walk_ids target [] path = path"
| "walk_ids target (r # rows) path =
     (if r \<noteq> [] then
        (let identifier = r ! 0 in
         if identifier \<notin> set path then
           (if identifier = SqlText target then path @ [identifier]
            else walk_ids target rows (path @ [identifier]))
         else walk_ids target rows path)
      else walk_ids target rows path)"

text \<open>
  The loop in body-inclusion mode:
  \<^verbatim>\<open>
  for row in cursor.execute(...):
      if row:
          identifier, obj, _ = row
          path.append(row)
          if identifier == target and obj == "()":
              break
  \<close>
  Unpacking a row that does not have three columns raises \<^verbatim>\<open>ValueError\<close>.
\<close>

fun walk_bodies :: "string \<Rightarrow> row list \<Rightarrow> row list \<Rightarrow> error + row list" where
  "walk_bodies target [] path = Inr path"
| "walk_bodies target (r # rows) path =
     (if r \<noteq> [] then
        (if length r \<noteq> 3 then Inl ValueError
         else
           (let identifier = r ! 0; obj = r ! 1 in
            if identifier = SqlText target \<and> obj = SqlText ''()'' then Inr (path @ [r])
            else walk_bodies target rows (path @ [r])))
      else walk_bodies target rows path)"

datatype path = Identifiers "sqlval list" | Records "row list"

text \<open>
  The neighbour query is rendered from \<^verbatim>\<open>traverse.template\<close>, or is whatever the
  caller's \<^verbatim>\<open>neighbors_fn\<close> returns; what the engine yields for it is a parameter: the
  rows, in the order they are yielded, for the mode, the source and the connection's
  view.
\<close>

definition traverse_inner ::
  "(bool \<Rightarrow> ident \<Rightarrow> db \<Rightarrow> row list) \<Rightarrow> ident \<Rightarrow> ident option \<Rightarrow> bool \<Rightarrow> session
     \<Rightarrow> (error + path) \<times> session" where
  "traverse_inner neighbors_fn src tgt with_bodies c =
     (let target = json_dumps tgt;
          rows = neighbors_fn with_bodies src (working c)
      in
        if with_bodies then
          (case walk_bodies target rows [] of
             Inl e \<Rightarrow> (Inl e, c)
           | Inr p \<Rightarrow> (Inr (Records p), c))
        else (Inr (Identifiers (walk_ids target rows [])), c))"

definition traverse ::
  "world \<Rightarrow> ident \<Rightarrow> ident option \<Rightarrow> (bool \<Rightarrow> ident \<Rightarrow> db \<Rightarrow> row list) \<Rightarrow> bool
     \<Rightarrow> (error + path) \<times> world" where
  "traverse w src tgt neighbors_fn with_bodies =
     atomic w (traverse_inner neighbors_fn src tgt with_bodies)"

section \<open>Sample states\<close>

text \<open>Concrete states on which the theorems below are exercised.\<close>

definition empty_db :: db where
  "empty_db = \<lparr>nodes = Map.empty, edges = []\<rparr>"

definition jobs_db :: db where
  "jobs_db =
     \<lparr>nodes = [JStr ''3'' \<mapsto> [''id'' \<mapsto> JStr ''3'', ''name'' \<mapsto> JStr ''Jobs'']], edges = []\<rparr>"

definition sample_world :: "db \<Rightarrow> bool \<Rightarrow> doc \<Rightarrow> world" where
  "sample_world d ok document =
     \<lparr>disk = d, connect_error = (if ok then None else Some OperationalError),
      cursor_error = None, pragma_error = None, commit_error = (\<lambda>c. None),
      trace = [], objects = (\<lambda>a. Map.empty)(0 := document)\<rparr>"

definition jobs_session :: "doc \<Rightarrow> session" where
  "jobs_session document =
     \<lparr>working = jobs_db, durable = jobs_db, foreign_keys = True, executed = [],
      heap = (\<lambda>a. Map.empty)(0 := document)\<rparr>"

definition founders_db :: db where
  "founders_db =
     \<lparr>nodes = [JInt 2 \<mapsto> [''id'' \<mapsto> JInt 2, ''name'' \<mapsto> JStr ''Woz''],
               JStr ''3'' \<mapsto> [''id'' \<mapsto> JStr ''3'', ''name'' \<mapsto> JStr ''Jobs'']],
      edges = [(JInt 2, JStr ''3'', Map.empty)]\<rparr>"

definition founders_session :: session where
  "founders_session =
     \<lparr>working = founders_db, durable = founders_db, foreign_keys = True, executed = [],
      heap = (\<lambda>a. Map.empty)\<rparr>"

definition pair_world :: "db \<Rightarrow> doc \<Rightarrow> doc \<Rightarrow> world" where
  "pair_world d first second =
     \<lparr>disk = d, connect_error = None, cursor_error = None, pragma_error = None,
      commit_error = (\<lambda>c. None), trace = [],
      objects = (\<lambda>a. Map.empty)(0 := first, 1 := second)\<rparr>"

definition founders_world :: world where
  "founders_world =
     pair_world founders_db [''name'' \<mapsto> JStr ''Wayne''] [''name'' \<mapsto> JStr ''Markkula'']"

text \<open>Rows of a neighbour query in body-inclusion mode: identifier, marker, document.\<close>

definition apple_rows :: "row list" where
  "apple_rows =
     [[SqlText ''4'', SqlText ''()'', SqlText ''{}''],
      [SqlText ''5'', SqlText ''->'', SqlText ''{}''],
      [SqlText ''1'', SqlText ''()'', SqlText ''{}''],
      [SqlText ''1'', SqlText ''()'', SqlText ''{}''],
      [SqlText ''5'', SqlText ''()'', SqlText ''{}''],
      [SqlText ''2'', SqlText ''()'', SqlText ''{}'']]"

section \<open>Predicates of the specification\<close>

text \<open>The invariant of the node relation: every stored document carries, as its
  \<^verbatim>\<open>"id"\<close>, the identifier it is stored under.\<close>

definition ids_consistent :: "db \<Rightarrow> bool" where
  "ids_consistent d = (\<forall>k body. nodes d k = Some body \<longrightarrow> body ''id'' = Some k)"

text \<open>A world in which no call of the driver raises.\<close>

definition faultless :: "world \<Rightarrow> bool" where
  "faultless w =
     (connect_error w = None \<and> cursor_error w = None \<and> pragma_error w = None
      \<and> (\<forall>c. commit_error w c = None))"

text \<open>The stopping condition of body-inclusion mode:
  \<^verbatim>\<open>identifier == target and obj == "()"\<close>.\<close>

definition is_target_node :: "string \<Rightarrow> row \<Rightarrow> bool" where
  "is_target_node target r = (r ! 0 = SqlText target \<and> r ! 1 = SqlText ''()'')"

text \<open>
  The bulk variants of the specification "apply the corresponding single-row operation
  once per element", in order; the first element that raises ends the batch.
\<close>

fun once_per_element ::
  "('x \<Rightarrow> session \<Rightarrow> (error + unit) \<times> session) \<Rightarrow> 'x list \<Rightarrow> session
     \<Rightarrow> (error + unit) \<times> session" where
  "once_per_element single [] c = (Inr (), c)"
| "once_per_element single (x # xs) c =
     (case single x c of
        (Inl e, c') \<Rightarrow> (Inl e, c')
      | (Inr u, c') \<Rightarrow> once_per_element single xs c')"

text \<open>
  "Either all elements are applied or none are": run through \<open>atomic\<close>, the bulk
  operation raises exactly when some single operation, applied in turn, raises, with the
  same error, and then the file is what it was; otherwise the file holds what all the
  single operations leave.
\<close>

definition all_or_nothing ::
  "world \<Rightarrow> (session \<Rightarrow> (error + unit) \<times> session) \<Rightarrow> (session \<Rightarrow> (error + unit) \<times> session)
     \<Rightarrow> bool" where
  "all_or_nothing w bulk one_by_one =
     (fst (atomic w bulk) = fst (one_by_one (begin_session w))
      \<and> disk (snd (atomic w bulk))
          = (if isl (fst (one_by_one (begin_session w))) then disk w
             else working (snd (one_by_one (begin_session w)))))"

text \<open>The documents a bulk insert is to store: each of the caller's documents, "with
  \<^verbatim>\<open>id\<close> forced to the resolved identifier" when an identifier is given.\<close>

definition documents_to_store :: "store \<Rightarrow> ident option list \<Rightarrow> addr list \<Rightarrow> doc list" where
  "documents_to_store h ids ns =
     map (\<lambda>(i, n). case i of None \<Rightarrow> h n | Some j \<Rightarrow> (h n)(''id'' \<mapsto> json_of_ident j))
       (zip ids ns)"

section \<open>Auxiliary facts\<close>

lemma json_of_ident_not_null: "json_of_ident i \<noteq> JNull"
  by (cases i) auto

lemma overlay_forced_again:
  "((m :: 'a \<rightharpoonup> 'b)(x \<mapsto> v) ++ n)(x \<mapsto> v) = (m ++ n)(x \<mapsto> v)"
  by (rule ext) (simp add: map_add_def split: option.splits)

lemma overlay_self: "(m :: 'a \<rightharpoonup> 'b) ++ m = m"
  by (rule ext) (simp add: map_add_def split: option.splits)

lemma overlay_twice: "((m :: 'a \<rightharpoonup> 'b) ++ n) ++ n = m ++ n"
  by (rule ext) (simp add: map_add_def split: option.splits)

lemma execute_cases:
  "(\<exists>e. stmt (working c) = Inl e \<and> execute name stmt c = (Inl e, c\<lparr>executed := executed c @ [name]\<rparr>))
   \<or> (\<exists>d. stmt (working c) = Inr d
          \<and> execute name stmt c = (Inr (), c\<lparr>executed := executed c @ [name], working := d\<rparr>))"
  by (cases "stmt (working c)") (simp_all add: execute_def Let_def)

lemma execute_preserves:
  assumes "\<And>d d'. stmt d = Inr d' \<Longrightarrow> P d \<Longrightarrow> P d'" and "P (working c)"
  shows "P (working (snd (execute name stmt c)))"
  using execute_cases [of stmt c name] assms by auto

lemma execute_heap [simp]: "heap (snd (execute name stmt c)) = heap c"
  using execute_cases [of stmt c name] by auto

lemma execute_foreign_keys [simp]: "foreign_keys (snd (execute name stmt c)) = foreign_keys c"
  using execute_cases [of stmt c name] by auto

lemma executemany_preserves:
  assumes "\<And>p d d'. stmt p d = Inr d' \<Longrightarrow> P d \<Longrightarrow> P d'"
  shows "P (working c) \<Longrightarrow> P (working (snd (executemany name stmt ps c)))"
proof (induction ps arbitrary: c)
  case Nil
  then show ?case by simp
next
  case (Cons p ps)
  have step: "P (working (snd (execute name (stmt p) c)))"
    by (rule execute_preserves [where P = P]) (use assms Cons.prems in auto)
  show ?case
  proof (cases "execute name (stmt p) c")
    case (Pair r c')
    with step Cons.IH [of c'] show ?thesis
      by (cases r) auto
  qed
qed

lemma insert_node_sql_consistent:
  "insert_node_sql body d = Inr d' \<Longrightarrow> ids_consistent d \<Longrightarrow> ids_consistent d'"
  by (auto simp: insert_node_sql_def ids_consistent_def split: option.splits if_splits)

lemma update_node_sql_consistent:
  "update_node_sql body k d = Inr d' \<Longrightarrow> body ''id'' = Some k \<Longrightarrow> ids_consistent d
     \<Longrightarrow> ids_consistent d'"
  by (auto simp: update_node_sql_def ids_consistent_def split: if_splits)

lemma insert_node_consistent:
  "ids_consistent (working c) \<Longrightarrow> ids_consistent (working (snd (insert_node i data c)))"
  unfolding insert_node_def Let_def
  by (rule execute_preserves [where P = ids_consistent])
     (auto dest: insert_node_sql_consistent)

lemma upsert_node_inner_consistent:
  "ids_consistent (working c) \<Longrightarrow> ids_consistent (working (snd (upsert_node_inner i data c)))"
proof -
  assume inv: "ids_consistent (working c)"
  show ?thesis
  proof (cases "find_node i c = Map.empty")
    case True
    then show ?thesis
      using insert_node_consistent [OF inv] by (simp add: upsert_node_inner_def)
  next
    case False
    have "ids_consistent (working (snd (execute ''update-node.sql''
            (update_node_sql (set_id (Some i) (find_node i c ++ heap c data)) (json_of_ident i)) c)))"
      by (rule execute_preserves [where P = ids_consistent])
         (use inv in \<open>auto intro: update_node_sql_consistent simp: set_id_def\<close>)
    with False show ?thesis
      by (simp add: upsert_node_inner_def Let_def)
  qed
qed

lemma upsert_each_consistent:
  "ids_consistent (working c) \<Longrightarrow> ids_consistent (working (snd (upsert_each ps c)))"
proof (induction ps arbitrary: c)
  case Nil
  then show ?case by simp
next
  case (Cons p ps)
  obtain i n where p: "p = (i, n)" by (cases p)
  show ?case
  proof (cases "upsert_node_inner i n c")
    case (Pair r c')
    with upsert_node_inner_consistent [OF Cons.prems, of i n] Cons.IH [of c'] p show ?thesis
      by (cases r) auto
  qed
qed


lemma add_nodes_consistent:
  "ids_consistent (working c) \<Longrightarrow> ids_consistent (working (snd (add_nodes ns ids c)))"
proof -
  obtain bodies h' where params: "set_ids (zip ids ns) (heap c) = (bodies, h')"
    by (cases "set_ids (zip ids ns) (heap c)")
  assume "ids_consistent (working c)"
  then have "ids_consistent (working (snd (executemany ''insert-node.sql'' insert_node_sql bodies
                (c\<lparr>heap := h'\<rparr>))))"
    by (intro executemany_preserves [where P = ids_consistent])
       (auto dest: insert_node_sql_consistent)
  with params show ?thesis
    by (simp add: add_nodes_def)
qed

lemma insert_node_stored:
  "fst (insert_node (Some i) data c) = Inr () \<Longrightarrow>
     nodes (working (snd (insert_node (Some i) data c))) (json_of_ident i)
       = Some ((heap c data)(''id'' \<mapsto> json_of_ident i))"
  by (auto simp: insert_node_def Let_def set_id_def execute_def insert_node_sql_def
      split: if_splits)


lemma atomic_faultless:
  "faultless w \<Longrightarrow>
     fst (atomic w f) = fst (f (begin_session w))
     \<and> disk (snd (atomic w f))
         = (if isl (fst (f (begin_session w))) then durable (snd (f (begin_session w)))
            else working (snd (f (begin_session w))))"
  by (cases "f (begin_session w)"; cases "fst (f (begin_session w))")
     (auto simp: atomic_def faultless_def)

lemma atomic_failure_keeps_durable:
  "isl (fst (atomic w f)) \<Longrightarrow> durable (snd (f (begin_session w))) = disk w
     \<Longrightarrow> disk (snd (atomic w f)) = disk w"
  by (cases "f (begin_session w)"; cases "fst (f (begin_session w))")
     (auto simp: atomic_def split: option.splits)

lemma execute_durable [simp]: "durable (snd (execute name stmt c)) = durable c"
  using execute_cases [of stmt c name] by auto

lemma executemany_durable [simp]: "durable (snd (executemany name stmt ps c)) = durable c"
proof (induction ps arbitrary: c)
  case Nil
  then show ?case by simp
next
  case (Cons p ps)
  show ?case
  proof (cases "execute name (stmt p) c")
    case (Pair r c')
    with Cons.IH [of c'] execute_durable [of name "stmt p" c] show ?thesis
      by (cases r) auto
  qed
qed

lemma executemany_insert_edge_ok:
  "\<forall>e \<in> set rows. nodes (working c) (fst e) \<noteq> None \<and> nodes (working c) (fst (snd e)) \<noteq> None
   \<Longrightarrow> fst (executemany name (insert_edge_sql fk) rows c) = Inr ()
     \<and> working (snd (executemany name (insert_edge_sql fk) rows c))
         = (working c)\<lparr>edges := edges (working c) @ rows\<rparr>"
proof (induction rows arbitrary: c)
  case Nil
  then show ?case by simp
next
  case (Cons e rows)
  obtain s t p where e: "e = (s, t, p)" by (cases e)
  let ?c' = "c\<lparr>executed := executed c @ [name], working := (working c)\<lparr>edges := edges (working c) @ [e]\<rparr>\<rparr>"
  have step: "execute name (insert_edge_sql fk e) c = (Inr (), ?c')"
    using Cons.prems e by (auto simp: execute_def insert_edge_sql_def Let_def)
  have "\<forall>e \<in> set rows. nodes (working ?c') (fst e) \<noteq> None \<and> nodes (working ?c') (fst (snd e)) \<noteq> None"
    using Cons.prems by simp
  from Cons.IH [OF this] step show ?case
    by simp
qed

lemma executemany_insert_edge_fails:
  "\<exists>e \<in> set rows. nodes (working c) (fst e) = None \<or> nodes (working c) (fst (snd e)) = None
   \<Longrightarrow> fst (executemany name (insert_edge_sql True) rows c) = Inl IntegrityError"
proof (induction rows arbitrary: c)
  case Nil
  then show ?case by simp
next
  case (Cons e rows)
  obtain s t p where e: "e = (s, t, p)" by (cases e)
  show ?case
  proof (cases "nodes (working c) s = None \<or> nodes (working c) t = None")
    case True
    then show ?thesis
      using e by (auto simp: execute_def insert_edge_sql_def Let_def)
  next
    case False
    let ?c' = "c\<lparr>executed := executed c @ [name], working := (working c)\<lparr>edges := edges (working c) @ [e]\<rparr>\<rparr>"
    have step: "execute name (insert_edge_sql True e) c = (Inr (), ?c')"
      using False e by (auto simp: execute_def insert_edge_sql_def Let_def)
    have "\<exists>e \<in> set rows. nodes (working ?c') (fst e) = None \<or> nodes (working ?c') (fst (snd e)) = None"
      using Cons.prems False e by auto
    from Cons.IH [OF this] step show ?thesis
      by simp
  qed
qed

lemma executemany_insert_node_ok:
  "fst (executemany name insert_node_sql bodies c) = Inr () \<Longrightarrow>
     (\<forall>k. nodes (working c) k \<noteq> None \<longrightarrow>
            nodes (working (snd (executemany name insert_node_sql bodies c))) k = nodes (working c) k)
     \<and> (\<forall>body \<in> set bodies. \<exists>k. body ''id'' = Some k
            \<and> nodes (working (snd (executemany name insert_node_sql bodies c))) k = Some body)
     \<and> edges (working (snd (executemany name insert_node_sql bodies c))) = edges (working c)"
proof (induction bodies arbitrary: c)
  case Nil
  then show ?case by simp
next
  case (Cons body bodies)
  show ?case
  proof (cases "insert_node_sql body (working c)")
    case (Inl e)
    then have "fst (executemany name insert_node_sql (body # bodies) c) = Inl e"
      by (simp add: execute_def Let_def)
    with Cons.prems show ?thesis by simp
  next
    case (Inr d)
    then obtain k where k: "body ''id'' = Some k" "nodes (working c) k = None"
        "d = (working c)\<lparr>nodes := (nodes (working c))(k \<mapsto> body)\<rparr>"
      by (auto simp: insert_node_sql_def split: option.splits if_splits)
    let ?c' = "c\<lparr>executed := executed c @ [name], working := d\<rparr>"
    have step: "execute name (insert_node_sql body) c = (Inr (), ?c')"
      using Inr by (simp add: execute_def Let_def)
    then have rest: "executemany name insert_node_sql (body # bodies) c
        = executemany name insert_node_sql bodies ?c'"
      by simp
    with Cons.prems have "fst (executemany name insert_node_sql bodies ?c') = Inr ()"
      by simp
    from Cons.IH [OF this] rest k show ?thesis
      by auto
  qed
qed

lemma executemany_delete_edge:
  "fst (executemany name (\<lambda>k. delete_edge_sql k k) ks c) = Inr ()
   \<and> foreign_keys (snd (executemany name (\<lambda>k. delete_edge_sql k k) ks c)) = foreign_keys c
   \<and> nodes (working (snd (executemany name (\<lambda>k. delete_edge_sql k k) ks c))) = nodes (working c)
   \<and> edges (working (snd (executemany name (\<lambda>k. delete_edge_sql k k) ks c)))
       = filter (\<lambda>(src, tgt, p). src \<notin> set ks \<and> tgt \<notin> set ks) (edges (working c))"
proof (induction ks arbitrary: c)
  case Nil
  then show ?case by simp
next
  case (Cons k ks)
  let ?c' = "c\<lparr>executed := executed c @ [name],
        working := (working c)\<lparr>edges := filter (\<lambda>(src, tgt, p). src \<noteq> k \<and> tgt \<noteq> k) (edges (working c))\<rparr>\<rparr>"
  have step: "execute name (delete_edge_sql k k) c = (Inr (), ?c')"
    by (simp add: execute_def delete_edge_sql_def Let_def)
  have "filter (\<lambda>(src, tgt, p). src \<notin> set ks \<and> tgt \<notin> set ks)
          (filter (\<lambda>(src, tgt, p). src \<noteq> k \<and> tgt \<noteq> k) (edges (working c)))
        = filter (\<lambda>(src, tgt, p). src \<notin> set (k # ks) \<and> tgt \<notin> set (k # ks)) (edges (working c))"
    by (induction "edges (working c)") (auto intro: filter_cong)
  with Cons.IH [of ?c'] step show ?case
    by simp
qed

lemma executemany_delete_node:
  "\<forall>k \<in> set ks. \<not> referenced k (working c) \<Longrightarrow>
   fst (executemany name (delete_node_sql fk) ks c) = Inr ()
   \<and> edges (working (snd (executemany name (delete_node_sql fk) ks c))) = edges (working c)
   \<and> (\<forall>k. nodes (working (snd (executemany name (delete_node_sql fk) ks c))) k
          = (if k \<in> set ks then None else nodes (working c) k))"
proof (induction ks arbitrary: c)
  case Nil
  then show ?case by simp
next
  case (Cons k ks)
  let ?c' = "c\<lparr>executed := executed c @ [name],
        working := (working c)\<lparr>nodes := (nodes (working c))(k := None)\<rparr>\<rparr>"
  have step: "execute name (delete_node_sql fk k) c = (Inr (), ?c')"
    using Cons.prems by (simp add: execute_def delete_node_sql_def Let_def)
  have "\<forall>k \<in> set ks. \<not> referenced k (working ?c')"
    using Cons.prems by (simp add: referenced_def)
  from Cons.IH [OF this] step show ?case
    by auto
qed


lemma upsert_each_once_per_element:
  "upsert_each ps c = once_per_element (\<lambda>(i, n). upsert_node i n) ps c"
proof (induction ps arbitrary: c)
  case Nil
  then show ?case by simp
next
  case (Cons p ps)
  obtain i n where p: "p = (i, n)" by (cases p)
  show ?case
  proof (cases "upsert_node_inner i n c")
    case (Pair r c')
    with p Cons.IH [of c'] show ?thesis
      by (cases r) (simp_all add: upsert_node_def)
  qed
qed

lemma connect_many_once_per_element:
  "foreign_keys c = fk \<Longrightarrow>
     executemany ''insert-edge.sql'' (insert_edge_sql fk)
         (map (\<lambda>(s, t, p). (json_of_ident s, json_of_ident t, p)) xs) c
       = once_per_element (\<lambda>(s, t, p). connect_nodes s t p) xs c"
proof (induction xs arbitrary: c)
  case Nil
  then show ?case by simp
next
  case (Cons x xs)
  obtain s t p where x: "x = (s, t, p)" by (cases x)
  let ?step = "execute ''insert-edge.sql''
      (insert_edge_sql fk (json_of_ident s, json_of_ident t, p)) c"
  have fk': "foreign_keys (snd ?step) = fk"
    using Cons.prems by simp
  show ?case
  proof (cases ?step)
    case (Pair r c')
    with fk' have "foreign_keys c' = fk" by simp
    from Cons.IH [OF this] Pair x Cons.prems show ?thesis
      by (cases r) (simp_all add: connect_nodes_def)
  qed
qed

lemma add_nodes_once_per_element:
  "set_ids ps (heap c) = (bodies, h') \<Longrightarrow>
     fst (executemany ''insert-node.sql'' insert_node_sql bodies (c\<lparr>heap := h'\<rparr>))
        = fst (once_per_element (\<lambda>(i, n). add_node n i) ps c)
     \<and> working (snd (executemany ''insert-node.sql'' insert_node_sql bodies (c\<lparr>heap := h'\<rparr>)))
        = working (snd (once_per_element (\<lambda>(i, n). add_node n i) ps c))"
proof (induction ps arbitrary: c bodies h')
  case Nil
  then show ?case by simp
next
  case (Cons p ps)
  obtain i n where p: "p = (i, n)" by (cases p)
  let ?body = "set_id i (heap c n)"
  obtain bodies' h'' where rest: "set_ids ps ((heap c)(n := ?body)) = (bodies', h'')"
    by (cases "set_ids ps ((heap c)(n := ?body))")
  with Cons.prems p have bodies: "bodies = ?body # bodies'" and h': "h' = h''"
    by (simp_all add: Let_def)
  show ?case
  proof (cases "insert_node_sql ?body (working c)")
    case (Inl e)
    then show ?thesis
      using p bodies by (simp add: add_node_def insert_node_def execute_def Let_def)
  next
    case (Inr d)
    let ?c1 = "c\<lparr>heap := (heap c)(n := ?body), executed := executed c @ [''insert-node.sql''],
                 working := d\<rparr>"
    have seq: "add_node n i c = (Inr (), ?c1)"
      using Inr by (simp add: add_node_def insert_node_def execute_def Let_def)
    have bulk: "execute ''insert-node.sql'' (insert_node_sql ?body) (c\<lparr>heap := h'\<rparr>)
        = (Inr (), ?c1\<lparr>heap := h'\<rparr>)"
      using Inr by (simp add: execute_def Let_def)
    have "set_ids ps (heap ?c1) = (bodies', h')"
      using rest h' by simp
    from Cons.IH [OF this] seq bulk p bodies show ?thesis
      by simp
  qed
qed

lemma remove_node_result:
  "remove_node i c = (Inr (),
     c\<lparr>executed := executed c @ [''delete-edge.sql'', ''delete-node.sql''],
       working := \<lparr>nodes = (nodes (working c))(json_of_ident i := None),
                   edges = filter (\<lambda>(src, tgt, p). src \<noteq> json_of_ident i \<and> tgt \<noteq> json_of_ident i)
                             (edges (working c))\<rparr>\<rparr>)"
  by (auto simp: remove_node_def execute_def delete_edge_sql_def delete_node_sql_def
      referenced_def Let_def)

lemma once_per_element_remove:
  "fst (once_per_element remove_node ids c) = Inr ()
   \<and> nodes (working (snd (once_per_element remove_node ids c)))
       = (\<lambda>k. if k \<in> set (map json_of_ident ids) then None else nodes (working c) k)
   \<and> edges (working (snd (once_per_element remove_node ids c)))
       = filter (\<lambda>(src, tgt, p). src \<notin> set (map json_of_ident ids)
                                  \<and> tgt \<notin> set (map json_of_ident ids)) (edges (working c))"
proof (induction ids arbitrary: c)
  case Nil
  then show ?case by simp
next
  case (Cons i ids)
  let ?c' = "c\<lparr>executed := executed c @ [''delete-edge.sql'', ''delete-node.sql''],
       working := \<lparr>nodes = (nodes (working c))(json_of_ident i := None),
                   edges = filter (\<lambda>(src, tgt, p). src \<noteq> json_of_ident i \<and> tgt \<noteq> json_of_ident i)
                             (edges (working c))\<rparr>\<rparr>"
  have "filter (\<lambda>(src, tgt, p). src \<notin> set (map json_of_ident ids) \<and> tgt \<notin> set (map json_of_ident ids))
          (filter (\<lambda>(src, tgt, p). src \<noteq> json_of_ident i \<and> tgt \<noteq> json_of_ident i) (edges (working c)))
        = filter (\<lambda>(src, tgt, p). src \<notin> set (map json_of_ident (i # ids))
                                   \<and> tgt \<notin> set (map json_of_ident (i # ids))) (edges (working c))"
    by (induction "edges (working c)") (auto intro: filter_cong)
  with Cons.IH [of ?c'] remove_node_result [of i c] show ?case
    by (auto simp: fun_eq_iff)
qed

lemma set_ids_distinct:
  "distinct (map snd ps) \<Longrightarrow> fst (set_ids ps h) = map (\<lambda>(i, n). set_id i (h n)) ps"
proof (induction ps arbitrary: h)
  case Nil
  then show ?case by simp
next
  case (Cons p ps)
  obtain i n where p: "p = (i, n)" by (cases p)
  with Cons.prems have fresh: "n \<notin> snd ` set ps" and rest: "distinct (map snd ps)"
    by auto
  let ?h = "h(n := set_id i (h n))"
  obtain bodies' h'' where tail: "set_ids ps ?h = (bodies', h'')"
    by (cases "set_ids ps ?h")
  have same: "map (\<lambda>(j, m). set_id j (?h m)) ps = map (\<lambda>(j, m). set_id j (h m)) ps"
    using fresh by (intro map_cong) (auto simp: image_iff)
  have "fst (set_ids ps ?h) = bodies'"
    by (simp only: tail fst_conv)
  with Cons.IH [OF rest, of ?h] have "bodies' = map (\<lambda>(j, m). set_id j (?h m)) ps"
    by (simp only:)
  with same have "bodies' = map (\<lambda>(j, m). set_id j (h m)) ps"
    by simp
  moreover have "fst (set_ids (p # ps) h) = set_id i (h n) # bodies'"
    using p tail by (simp add: Let_def)
  ultimately show ?case
    using p by simp
qed

lemma documents_to_store_set_ids:
  "distinct (map snd (zip ids ns)) \<Longrightarrow>
     fst (set_ids (zip ids ns) h) = documents_to_store h ids ns"
  using set_ids_distinct [of "zip ids ns" h]
  by (simp add: documents_to_store_def set_id_def)

lemma executemany_insert_node_iff:
  "fst (executemany name insert_node_sql bodies c) = Inr () \<longleftrightarrow>
     (\<forall>b \<in> set bodies. \<exists>k. b ''id'' = Some k \<and> k \<noteq> JNull \<and> nodes (working c) k = None)
     \<and> distinct (map (\<lambda>b. b ''id'') bodies)"
proof (induction bodies arbitrary: c)
  case Nil
  then show ?case by simp
next
  case (Cons body bodies)
  show ?case
  proof (cases "insert_node_sql body (working c)")
    case (Inl e)
    then have fails: "fst (executemany name insert_node_sql (body # bodies) c) = Inl e"
      by (simp add: execute_def Let_def)
    from Inl have "\<not> (\<exists>k. body ''id'' = Some k \<and> k \<noteq> JNull \<and> nodes (working c) k = None)"
      by (auto simp: insert_node_sql_def split: option.splits if_splits)
    with fails show ?thesis by auto
  next
    case (Inr d)
    then obtain k where k: "body ''id'' = Some k" "k \<noteq> JNull" "nodes (working c) k = None"
        "d = (working c)\<lparr>nodes := (nodes (working c))(k \<mapsto> body)\<rparr>"
      by (auto simp: insert_node_sql_def split: option.splits if_splits)
    let ?c' = "c\<lparr>executed := executed c @ [name], working := d\<rparr>"
    have step: "execute name (insert_node_sql body) c = (Inr (), ?c')"
      using Inr by (simp add: execute_def Let_def)
    have "(\<forall>b \<in> set bodies. \<exists>k'. b ''id'' = Some k' \<and> k' \<noteq> JNull \<and> nodes (working ?c') k' = None)
            \<longleftrightarrow> (\<forall>b \<in> set bodies. \<exists>k'. b ''id'' = Some k' \<and> k' \<noteq> JNull
                    \<and> nodes (working c) k' = None) \<and> body ''id'' \<notin> (\<lambda>b. b ''id'') ` set bodies"
      using k by (auto simp: image_iff) metis
    with Cons.IH [of ?c'] step k show ?thesis
      by auto
  qed
qed

lemma executemany_insert_node_others:
  "fst (executemany name insert_node_sql bodies c) = Inr () \<Longrightarrow>
     \<forall>b \<in> set bodies. b ''id'' \<noteq> Some k \<Longrightarrow>
     nodes (working (snd (executemany name insert_node_sql bodies c))) k = nodes (working c) k"
proof (induction bodies arbitrary: c)
  case Nil
  then show ?case by simp
next
  case (Cons body bodies)
  show ?case
  proof (cases "insert_node_sql body (working c)")
    case (Inl e)
    then have "fst (executemany name insert_node_sql (body # bodies) c) = Inl e"
      by (simp add: execute_def Let_def)
    with Cons.prems show ?thesis by simp
  next
    case (Inr d)
    then obtain k' where k: "body ''id'' = Some k'"
        "d = (working c)\<lparr>nodes := (nodes (working c))(k' \<mapsto> body)\<rparr>"
      by (auto simp: insert_node_sql_def split: option.splits if_splits)
    let ?c' = "c\<lparr>executed := executed c @ [name], working := d\<rparr>"
    have step: "execute name (insert_node_sql body) c = (Inr (), ?c')"
      using Inr by (simp add: execute_def Let_def)
    with Cons.prems have "fst (executemany name insert_node_sql bodies ?c') = Inr ()"
      by simp
    from Cons.IH [OF this] Cons.prems(2) step k show ?thesis
      by auto
  qed
qed

lemma upsert_node_inner_succeeds:
  "ids_consistent (working c) \<Longrightarrow> fst (upsert_node_inner i n c) = Inr ()"
proof (cases "nodes (working c) (json_of_ident i)")
  case None
  then show ?thesis
    by (simp add: upsert_node_inner_def find_node_def insert_node_def set_id_def execute_def
        insert_node_sql_def Let_def json_of_ident_not_null)
next
  case (Some current)
  assume "ids_consistent (working c)"
  with Some have "current ''id'' = Some (json_of_ident i)"
    by (simp add: ids_consistent_def)
  then have "current \<noteq> Map.empty" by auto
  with Some show ?thesis
    by (simp add: upsert_node_inner_def find_node_def execute_def update_node_sql_def Let_def)
qed

lemma upsert_each_succeeds:
  "ids_consistent (working c) \<Longrightarrow> fst (upsert_each ps c) = Inr ()"
proof (induction ps arbitrary: c)
  case Nil
  then show ?case by simp
next
  case (Cons p ps)
  obtain i n where p: "p = (i, n)" by (cases p)
  show ?case
  proof (cases "upsert_node_inner i n c")
    case (Pair r c')
    with upsert_node_inner_succeeds [OF Cons.prems, of i n]
      upsert_node_inner_consistent [OF Cons.prems, of i n] Cons.IH [of c'] p
    show ?thesis by simp
  qed
qed

lemma upsert_node_inner_durable [simp]: "durable (snd (upsert_node_inner i n c)) = durable c"
  by (simp add: upsert_node_inner_def insert_node_def Let_def)

lemma upsert_each_durable [simp]: "durable (snd (upsert_each ps c)) = durable c"
proof (induction ps arbitrary: c)
  case Nil
  then show ?case by simp
next
  case (Cons p ps)
  obtain i n where p: "p = (i, n)" by (cases p)
  show ?case
  proof (cases "upsert_node_inner i n c")
    case (Pair r c')
    with Cons.IH [of c'] upsert_node_inner_durable [of i n c] p show ?thesis
      by (cases r) auto
  qed
qed

lemma bulk_durable:
  "durable (snd (add_nodes ns opt_ids c)) = durable c"
  "durable (snd (upsert_nodes ns ids c)) = durable c"
  "durable (snd (connect_many_nodes sources targets properties c)) = durable c"
  "durable (snd (remove_nodes ids c)) = durable c"
proof -
  show "durable (snd (add_nodes ns opt_ids c)) = durable c"
    by (cases "set_ids (zip opt_ids ns) (heap c)") (simp add: add_nodes_def)
  show "durable (snd (upsert_nodes ns ids c)) = durable c"
    by (simp add: upsert_nodes_def)
  show "durable (snd (connect_many_nodes sources targets properties c)) = durable c"
    by (simp add: connect_many_nodes_def)
  show "durable (snd (remove_nodes ids c)) = durable c"
    by (cases "executemany ''delete-edge.sql'' (\<lambda>k. delete_edge_sql k k) (map json_of_ident ids) c";
        cases "fst (executemany ''delete-edge.sql'' (\<lambda>k. delete_edge_sql k k) (map json_of_ident ids) c)")
       (use executemany_durable [of "''delete-edge.sql''" "\<lambda>k. delete_edge_sql k k"
              "map json_of_ident ids" c] in \<open>auto simp: remove_nodes_def Let_def\<close>)
qed

lemma all_or_nothing_intro:
  assumes "faultless w"
    and "fst (bulk (begin_session w)) = fst (one_by_one (begin_session w))"
    and "working (snd (bulk (begin_session w))) = working (snd (one_by_one (begin_session w)))"
    and "durable (snd (bulk (begin_session w))) = durable (begin_session w)"
  shows "all_or_nothing w bulk one_by_one"
  using atomic_faultless [OF assms(1), of bulk] assms(2-4)
  by (simp add: all_or_nothing_def begin_session_def)

lemma remove_nodes_result:
  "fst (remove_nodes ids c) = Inr ()
   \<and> nodes (working (snd (remove_nodes ids c)))
       = (\<lambda>k. if k \<in> set (map json_of_ident ids) then None else nodes (working c) k)
   \<and> edges (working (snd (remove_nodes ids c)))
       = filter (\<lambda>(src, tgt, p). src \<notin> set (map json_of_ident ids)
                                  \<and> tgt \<notin> set (map json_of_ident ids)) (edges (working c))"
proof -
  let ?ks = "map json_of_ident ids"
  let ?c1 = "snd (executemany ''delete-edge.sql'' (\<lambda>k. delete_edge_sql k k) ?ks c)"
  note de = executemany_delete_edge [of "''delete-edge.sql''" ?ks c]
  have unref: "\<forall>k \<in> set ?ks. \<not> referenced k (working ?c1)"
    using de by (auto simp: referenced_def)
  note dn = executemany_delete_node [OF unref, of "''delete-node.sql''" "foreign_keys ?c1"]
  have run: "remove_nodes ids c
      = executemany ''delete-node.sql'' (delete_node_sql (foreign_keys ?c1)) ?ks ?c1"
    using de by (cases "executemany ''delete-edge.sql'' (\<lambda>k. delete_edge_sql k k) ?ks c")
      (auto simp: remove_nodes_def Let_def)
  show ?thesis
    using dn de unfolding run by (auto simp: fun_eq_iff)
qed

lemma remove_nodes_once_per_element:
  "fst (remove_nodes ids c) = fst (once_per_element remove_node ids c)
   \<and> working (snd (remove_nodes ids c)) = working (snd (once_per_element remove_node ids c))"
  using remove_nodes_result [of ids c] once_per_element_remove [of ids c]
  by (auto intro: db.equality)

lemma walk_ids_extends: "\<exists>ys. walk_ids target rows path = path @ ys"
proof (induction rows arbitrary: path)
  case Nil
  then show ?case by simp
next
  case (Cons r rows)
  from Cons.IH [of path] Cons.IH [of "path @ [r ! 0]"] show ?case
    by (auto simp: Let_def)
qed

lemma walk_ids_distinct: "distinct path \<Longrightarrow> distinct (walk_ids target rows path)"
  by (induction rows arbitrary: path) (auto simp: Let_def)

lemma walk_ids_stops:
  "SqlText target \<notin> set path \<Longrightarrow> SqlText target \<in> set (walk_ids target rows path)
     \<Longrightarrow> last (walk_ids target rows path) = SqlText target"
  by (induction rows arbitrary: path) (auto simp: Let_def split: if_splits)

lemma walk_ids_exhausts:
  "\<forall>r \<in> set rows. r \<noteq> [] \<longrightarrow> r ! 0 \<noteq> SqlText target \<Longrightarrow>
     set (walk_ids target rows path) = set path \<union> {r ! 0 | r. r \<in> set rows \<and> r \<noteq> []}"
  by (induction rows arbitrary: path) (auto simp: Let_def)

lemma walk_bodies_path:
  "\<forall>r \<in> set rows. length r = 3 \<Longrightarrow>
     walk_bodies target rows path
       = Inr (path @ takeWhile (\<lambda>r. \<not> is_target_node target r) rows
                 @ take 1 (dropWhile (\<lambda>r. \<not> is_target_node target r) rows))"
  by (induction rows arbitrary: path) (auto simp: Let_def is_target_node_def)

lemma json_dumps_examples:
  "json_dumps (Some (IdInt 5)) = ''5''"
  "json_dumps (Some (IdInt (- 12))) = ''-12''"
  "json_dumps (Some (IdStr ''3'')) = [CHR 0x22, CHR ''3'', CHR 0x22]"
  "json_dumps None = ''null''"
  by code_simp+

section \<open>Properties of the transaction executor\<close>

text \<open>
  C1, as stated, fails for some units of work and on some exit paths. A unit of work
  that commits by itself and then raises leaves its statements committed: the unit that
  \<open>initialize\<close> builds runs a script whose first statement inserts node 1 and whose
  second statement raises; the exception propagates and node 1 is in the file. And
  when the unit of work returns but \<^verbatim>\<open>connection.commit()\<close> raises, what propagates
  is the error of the commit, and not the result of the unit of work, whose statements
  stay uncommitted.
\<close>

theorem atomic_contract_counterexample:
  "isl (fst (executescript ''schema.sql''
               [insert_node_sql [''id'' \<mapsto> JInt 1], insert_node_sql [''id'' \<mapsto> JInt 1]]
               (begin_session (sample_world empty_db True Map.empty))))
   \<and> fst (initialize (sample_world empty_db True Map.empty) ''schema.sql''
            [insert_node_sql [''id'' \<mapsto> JInt 1], insert_node_sql [''id'' \<mapsto> JInt 1]])
       = Inl IntegrityError
   \<and> nodes (disk (sample_world empty_db True Map.empty)) (JInt 1) = None
   \<and> nodes (disk (snd (initialize (sample_world empty_db True Map.empty) ''schema.sql''
            [insert_node_sql [''id'' \<mapsto> JInt 1], insert_node_sql [''id'' \<mapsto> JInt 1]])))
        (JInt 1) = Some [''id'' \<mapsto> JInt 1]
   \<and> fst (add_node 0 (Some (IdInt 1))
            (begin_session ((sample_world empty_db True Map.empty)
               \<lparr>commit_error := \<lambda>c. Some OperationalError\<rparr>))) = Inr ()
   \<and> fst (atomic ((sample_world empty_db True Map.empty)
               \<lparr>commit_error := \<lambda>c. Some OperationalError\<rparr>) (add_node 0 (Some (IdInt 1))))
       = Inl OperationalError"
  by (simp add: initialize_def atomic_def executescript_def commit_def sample_world_def
      empty_db_def begin_session_def insert_node_sql_def add_node_def insert_node_def set_id_def
      execute_def Let_def)

text \<open>
  C1, amended. For every world and every unit of work. When the connection cannot be
  opened, the error propagates and nothing else happens. Otherwise exactly one
  connection is opened, and it is closed, last of all, on every exit path. When the
  cursor cannot be created or the pragma raises, that error propagates, the unit of
  work is not invoked and the file is unchanged. Otherwise the unit of work is invoked,
  once, with a cursor on which foreign keys are enforced and which sees the committed
  content. When it raises, its exception propagates and \<open>atomic\<close> commits nothing: the
  file holds what the unit of work committed itself, so the statements of a unit that
  does not commit remain uncommitted. When it returns, \<open>atomic\<close> commits: if the commit
  succeeds, the connection's view is the new content of the file and the result of the
  unit of work is returned; if the commit raises, its error propagates and the file holds
  what the unit of work committed itself.
\<close>

theorem atomic_contract:
  fixes cursor_exec_fn :: "session \<Rightarrow> (error + 'a) \<times> session"
  shows
   "(connect_error w = Some e \<longrightarrow> atomic w cursor_exec_fn = (Inl e, w))
    \<and> (connect_error w = None \<longrightarrow>
         (\<exists>evs. trace (snd (atomic w cursor_exec_fn)) = trace w @ evs
            \<and> count_list evs Connect = 1 \<and> count_list evs Close = 1
            \<and> hd evs = Connect \<and> last evs = Close
            \<and> count_list evs Invoke \<le> 1 \<and> count_list evs Commit \<le> 1
            \<and> (Invoke \<in> set evs \<longleftrightarrow> cursor_error w = None \<and> pragma_error w = None)
            \<and> (Invoke \<in> set evs \<longrightarrow> take 3 evs = [Connect, Pragma_foreign_keys, Invoke])
            \<and> (Commit \<in> set evs \<longleftrightarrow>
                  cursor_error w = None \<and> pragma_error w = None
                  \<and> \<not> isl (fst (cursor_exec_fn (begin_session w)))
                  \<and> commit_error w (snd (cursor_exec_fn (begin_session w))) = None))
         \<and> (cursor_error w = Some e \<longrightarrow>
               fst (atomic w cursor_exec_fn) = Inl e \<and> disk (snd (atomic w cursor_exec_fn)) = disk w)
         \<and> (cursor_error w = None \<and> pragma_error w = Some e \<longrightarrow>
               fst (atomic w cursor_exec_fn) = Inl e \<and> disk (snd (atomic w cursor_exec_fn)) = disk w)
         \<and> (cursor_error w = None \<and> pragma_error w = None \<longrightarrow>
               foreign_keys (begin_session w) \<and> working (begin_session w) = disk w
               \<and> durable (begin_session w) = disk w
               \<and> (isl (fst (cursor_exec_fn (begin_session w))) \<longrightarrow>
                    fst (atomic w cursor_exec_fn) = fst (cursor_exec_fn (begin_session w))
                    \<and> disk (snd (atomic w cursor_exec_fn))
                        = durable (snd (cursor_exec_fn (begin_session w))))
               \<and> (\<not> isl (fst (cursor_exec_fn (begin_session w)))
                    \<and> commit_error w (snd (cursor_exec_fn (begin_session w))) = None \<longrightarrow>
                    fst (atomic w cursor_exec_fn) = fst (cursor_exec_fn (begin_session w))
                    \<and> disk (snd (atomic w cursor_exec_fn))
                        = working (snd (cursor_exec_fn (begin_session w))))
               \<and> (\<not> isl (fst (cursor_exec_fn (begin_session w)))
                    \<and> commit_error w (snd (cursor_exec_fn (begin_session w))) = Some e \<longrightarrow>
                    fst (atomic w cursor_exec_fn) = Inl e
                    \<and> disk (snd (atomic w cursor_exec_fn))
                        = durable (snd (cursor_exec_fn (begin_session w))))
               \<and> (isl (fst (atomic w cursor_exec_fn))
                    \<and> durable (snd (cursor_exec_fn (begin_session w))) = disk w \<longrightarrow>
                    disk (snd (atomic w cursor_exec_fn)) = disk w)))"
proof -
  obtain r c where run: "cursor_exec_fn (begin_session w) = (r, c)"
    by (cases "cursor_exec_fn (begin_session w)")
  show ?thesis
  proof (cases r)
    case (Inl x)
    then show ?thesis
      using run by (auto simp: atomic_def begin_session_def split: option.splits)
  next
    case (Inr x)
    then show ?thesis
      using run by (auto simp: atomic_def begin_session_def split: option.splits)
  qed
qed

theorem atomic_contract_witness:
  "connect_error (sample_world empty_db True Map.empty) = None
   \<and> cursor_error (sample_world empty_db True Map.empty) = None
   \<and> pragma_error (sample_world empty_db True Map.empty) = None
   \<and> isl (fst (connect_nodes (IdInt 1) (IdInt 2) Map.empty
                 (begin_session (sample_world empty_db True Map.empty))))
   \<and> fst (atomic (sample_world empty_db True Map.empty)
             (connect_nodes (IdInt 1) (IdInt 2) Map.empty)) = Inl IntegrityError
   \<and> disk (snd (atomic (sample_world empty_db True Map.empty)
             (connect_nodes (IdInt 1) (IdInt 2) Map.empty))) = empty_db
   \<and> \<not> isl (fst (add_node 0 (Some (IdInt 1))
                 (begin_session (sample_world empty_db True Map.empty))))
   \<and> fst (atomic (sample_world empty_db True Map.empty) (add_node 0 (Some (IdInt 1)))) = Inr ()
   \<and> nodes (disk (snd (atomic (sample_world empty_db True Map.empty)
                          (add_node 0 (Some (IdInt 1)))))) (JInt 1)
        = Some [''id'' \<mapsto> JInt 1]
   \<and> connect_error (sample_world empty_db False Map.empty) = Some OperationalError
   \<and> atomic (sample_world empty_db False Map.empty) (add_node 0 (Some (IdInt 1)))
        = (Inl OperationalError, sample_world empty_db False Map.empty)
   \<and> pragma_error ((sample_world empty_db True Map.empty)\<lparr>pragma_error := Some OperationalError\<rparr>)
        = Some OperationalError
   \<and> fst (atomic ((sample_world empty_db True Map.empty)\<lparr>pragma_error := Some OperationalError\<rparr>)
             (add_node 0 (Some (IdInt 1)))) = Inl OperationalError
   \<and> disk (snd (atomic ((sample_world empty_db True Map.empty)
                           \<lparr>pragma_error := Some OperationalError\<rparr>)
             (add_node 0 (Some (IdInt 1))))) = empty_db
   \<and> fst (atomic ((sample_world empty_db True Map.empty)
                     \<lparr>commit_error := \<lambda>c. Some OperationalError\<rparr>)
             (add_node 0 (Some (IdInt 1)))) = Inl OperationalError
   \<and> disk (snd (atomic ((sample_world empty_db True Map.empty)
                           \<lparr>commit_error := \<lambda>c. Some OperationalError\<rparr>)
             (add_node 0 (Some (IdInt 1))))) = empty_db"
  using atomic_contract [of "sample_world empty_db True Map.empty" OperationalError
      "connect_nodes (IdInt 1) (IdInt 2) Map.empty"]
    atomic_contract [of "sample_world empty_db True Map.empty" OperationalError
      "add_node 0 (Some (IdInt 1))"]
    atomic_contract [of "sample_world empty_db False Map.empty" OperationalError
      "add_node 0 (Some (IdInt 1))"]
    atomic_contract [of "(sample_world empty_db True Map.empty)\<lparr>pragma_error := Some OperationalError\<rparr>"
      OperationalError "add_node 0 (Some (IdInt 1))"]
    atomic_contract [of "(sample_world empty_db True Map.empty)
                           \<lparr>commit_error := \<lambda>c. Some OperationalError\<rparr>"
      OperationalError "add_node 0 (Some (IdInt 1))"]
  by (simp add: sample_world_def empty_db_def begin_session_def connect_nodes_def add_node_def
      insert_node_def set_id_def execute_def insert_edge_sql_def insert_node_sql_def Let_def)

section \<open>Properties of the node store\<close>

text \<open>
  C2, as stated, fails: the document stored by an upsert is not always the current
  document overlaid by the new one. Node \<^verbatim>\<open>"3"\<close> holds
  \<^verbatim>\<open>{"id": "3", "name": "Jobs"}\<close>; upserting \<^verbatim>\<open>{"id": "4"}\<close> under identifier
  \<^verbatim>\<open>"3"\<close> leaves \<^verbatim>\<open>"id": "3"\<close> in the stored document, where the overlay has
  \<^verbatim>\<open>"id": "4"\<close>: \<^verbatim>\<open>_set_id\<close> runs after the merge.
\<close>

theorem upsert_overlay_counterexample:
  "nodes (working (snd (upsert_node (IdStr ''3'') 0 (jobs_session [''id'' \<mapsto> JStr ''4'']))))
     (JStr ''3'')
   \<noteq> Some ([''id'' \<mapsto> JStr ''3'', ''name'' \<mapsto> JStr ''Jobs''] ++ [''id'' \<mapsto> JStr ''4''])"
proof
  assume "nodes (working (snd (upsert_node (IdStr ''3'') 0 (jobs_session [''id'' \<mapsto> JStr ''4'']))))
     (JStr ''3'')
   = Some ([''id'' \<mapsto> JStr ''3'', ''name'' \<mapsto> JStr ''Jobs''] ++ [''id'' \<mapsto> JStr ''4''])"
  then have "([''id'' \<mapsto> JStr ''3'', ''name'' \<mapsto> JStr ''Jobs''] ++ [''id'' \<mapsto> JStr ''4''])
                (''id'' \<mapsto> JStr ''3'')
             = [''id'' \<mapsto> JStr ''3'', ''name'' \<mapsto> JStr ''Jobs''] ++ [''id'' \<mapsto> JStr ''4'']"
    by (simp add: upsert_node_def upsert_node_inner_def find_node_def jobs_session_def jobs_db_def
        set_id_def execute_def update_node_sql_def Let_def)
  then have "(([''id'' \<mapsto> JStr ''3'', ''name'' \<mapsto> JStr ''Jobs''] ++ [''id'' \<mapsto> JStr ''4''])
                (''id'' \<mapsto> JStr ''3'')) ''id''
             = ([''id'' \<mapsto> JStr ''3'', ''name'' \<mapsto> JStr ''Jobs''] ++ [''id'' \<mapsto> JStr ''4'']) ''id''"
    by (rule arg_cong)
  then show False by simp
qed

text \<open>
  C2, amended. When no node is stored under the identifier, upserting is inserting.
  When a node is stored under it with a current document (which is not empty: it
  carries its \<^verbatim>\<open>"id"\<close>), the upsert succeeds and the document stored afterwards is
  the current document overlaid by the new one, with \<^verbatim>\<open>"id"\<close> then set to the
  identifier: the new document's keys win on conflict, except \<^verbatim>\<open>"id"\<close>, and the other
  keys of the current document are retained. When the new document has no \<^verbatim>\<open>"id"\<close>
  and the current one has the identifier as its \<^verbatim>\<open>"id"\<close>, that is the plain overlay.
  No other node and no edge changes.
\<close>

theorem upsert_node_merge:
  "(nodes (working c) (json_of_ident idn) = None \<longrightarrow>
      upsert_node idn data c = add_node data (Some idn) c)
   \<and> (nodes (working c) (json_of_ident idn) = Some current \<and> current \<noteq> Map.empty \<longrightarrow>
        fst (upsert_node idn data c) = Inr ()
        \<and> nodes (working (snd (upsert_node idn data c))) (json_of_ident idn)
            = Some ((current ++ heap c data)(''id'' \<mapsto> json_of_ident idn))
        \<and> (heap c data ''id'' = None \<and> current ''id'' = Some (json_of_ident idn) \<longrightarrow>
              nodes (working (snd (upsert_node idn data c))) (json_of_ident idn)
                = Some (current ++ heap c data))
        \<and> (\<forall>other. other \<noteq> json_of_ident idn \<longrightarrow>
              nodes (working (snd (upsert_node idn data c))) other = nodes (working c) other)
        \<and> edges (working (snd (upsert_node idn data c))) = edges (working c))"
  by (auto simp: upsert_node_def upsert_node_inner_def add_node_def find_node_def
        set_id_def execute_def update_node_sql_def Let_def map_add_def fun_eq_iff)

theorem upsert_node_merge_witness:
  "nodes (working (jobs_session [''new_prop'' \<mapsto> JStr ''value''])) (json_of_ident (IdStr ''3''))
      = Some [''id'' \<mapsto> JStr ''3'', ''name'' \<mapsto> JStr ''Jobs'']
   \<and> [''id'' \<mapsto> JStr ''3'', ''name'' \<mapsto> JStr ''Jobs''] \<noteq> Map.empty
   \<and> nodes (working (snd (upsert_node (IdStr ''3'') 0 (jobs_session [''new_prop'' \<mapsto> JStr ''value'']))))
        (JStr ''3'')
      = Some [''id'' \<mapsto> JStr ''3'', ''name'' \<mapsto> JStr ''Jobs'', ''new_prop'' \<mapsto> JStr ''value'']"
proof -
  let ?c = "jobs_session [''new_prop'' \<mapsto> JStr ''value'']"
  let ?C = "[''id'' \<mapsto> JStr ''3'', ''name'' \<mapsto> JStr ''Jobs'']"
  have stored: "nodes (working ?c) (json_of_ident (IdStr ''3'')) = Some ?C"
    by (simp add: jobs_session_def jobs_db_def)
  have nonempty: "?C \<noteq> Map.empty"
    by simp
  have ids: "heap ?c 0 ''id'' = None \<and> ?C ''id'' = Some (json_of_ident (IdStr ''3''))"
    by (simp add: jobs_session_def)
  have "nodes (working (snd (upsert_node (IdStr ''3'') 0 ?c))) (json_of_ident (IdStr ''3''))
          = Some (?C ++ heap ?c 0)"
    using upsert_node_merge [where c = ?c and idn = "IdStr ''3''" and data = 0 and current = ?C]
      stored nonempty ids by blast
  moreover have "?C ++ heap ?c 0
      = [''id'' \<mapsto> JStr ''3'', ''name'' \<mapsto> JStr ''Jobs'', ''new_prop'' \<mapsto> JStr ''value'']"
    by (simp add: jobs_session_def)
  ultimately show ?thesis
    using stored nonempty by simp
qed

text \<open>
  C3. Upserting the same document under the same identifier twice in succession: after
  the second call the database, and so the stored document, is what it was after the
  first call, whatever the state before and whether or not the calls raise.
\<close>

theorem upsert_node_idempotent:
  "working (snd (upsert_node idn data (snd (upsert_node idn data c))))
     = working (snd (upsert_node idn data c))"
proof (cases "nodes (working c) (json_of_ident idn)")
  case None
  then show ?thesis
    by (simp add: upsert_node_def upsert_node_inner_def find_node_def insert_node_def
        set_id_def execute_def insert_node_sql_def update_node_sql_def Let_def
        json_of_ident_not_null overlay_forced_again overlay_self)
next
  case (Some current)
  show ?thesis
  proof (cases "current = Map.empty")
    case True
    with Some show ?thesis
      by (simp add: upsert_node_def upsert_node_inner_def find_node_def insert_node_def
        set_id_def execute_def insert_node_sql_def update_node_sql_def Let_def
        json_of_ident_not_null)
  next
    case False
    with Some show ?thesis
      by (simp add: upsert_node_def upsert_node_inner_def find_node_def insert_node_def
        set_id_def execute_def insert_node_sql_def update_node_sql_def Let_def
        json_of_ident_not_null overlay_forced_again overlay_twice)
  qed
qed

theorem upsert_node_idempotent_witness:
  "nodes (working (snd (upsert_node (IdStr ''3'') 0
       (snd (upsert_node (IdStr ''3'') 0 (jobs_session [''new_prop'' \<mapsto> JStr ''value'']))))))
     (JStr ''3'')
   = Some ([''id'' \<mapsto> JStr ''3'', ''name'' \<mapsto> JStr ''Jobs''] ++ [''new_prop'' \<mapsto> JStr ''value''])"
proof -
  have "nodes (working (snd (upsert_node (IdStr ''3'') 0
           (jobs_session [''new_prop'' \<mapsto> JStr ''value''])))) (JStr ''3'')
        = Some (([''id'' \<mapsto> JStr ''3'', ''name'' \<mapsto> JStr ''Jobs''] ++ [''new_prop'' \<mapsto> JStr ''value''])
                  (''id'' \<mapsto> JStr ''3''))"
    by (simp add: upsert_node_def upsert_node_inner_def find_node_def jobs_session_def jobs_db_def
        set_id_def execute_def update_node_sql_def Let_def)
  moreover have "([''id'' \<mapsto> JStr ''3'', ''name'' \<mapsto> JStr ''Jobs''] ++ [''new_prop'' \<mapsto> JStr ''value''])
                  (''id'' \<mapsto> JStr ''3'')
        = [''id'' \<mapsto> JStr ''3'', ''name'' \<mapsto> JStr ''Jobs''] ++ [''new_prop'' \<mapsto> JStr ''value'']"
    by (rule ext) simp
  ultimately show ?thesis
    using upsert_node_idempotent [where idn = "IdStr ''3''" and data = 0
        and c = "jobs_session [''new_prop'' \<mapsto> JStr ''value'']"]
    by simp
qed

text \<open>
  C4. Every write of the node store keeps the invariant that a stored document carries
  the identifier it is stored under as its \<^verbatim>\<open>"id"\<close>: single and bulk insert, single
  and bulk upsert, whatever \<^verbatim>\<open>"id"\<close> the caller's document has or lacks. A node
  written with an identifier is stored under that identifier, with that \<^verbatim>\<open>"id"\<close>. An
  insert with no identifier of a document with no \<^verbatim>\<open>"id"\<close> stores nothing: the
  statement raises.
\<close>

theorem stored_id_invariant:
  "ids_consistent (working c) \<longrightarrow>
     ids_consistent (working (snd (add_node data opt_id c)))
     \<and> ids_consistent (working (snd (add_nodes ns opt_ids c)))
     \<and> ids_consistent (working (snd (upsert_node idn data c)))
     \<and> ids_consistent (working (snd (upsert_nodes ns ids c)))
     \<and> (fst (add_node data (Some idn) c) = Inr () \<longrightarrow>
          (\<exists>body. nodes (working (snd (add_node data (Some idn) c))) (json_of_ident idn) = Some body
             \<and> body ''id'' = Some (json_of_ident idn)))
     \<and> (fst (upsert_node idn data c) = Inr () \<longrightarrow>
          (\<exists>body. nodes (working (snd (upsert_node idn data c))) (json_of_ident idn) = Some body
             \<and> body ''id'' = Some (json_of_ident idn)))
     \<and> (opt_id = None \<and> heap c data ''id'' = None \<longrightarrow>
          add_node data opt_id c = (Inl IntegrityError, c\<lparr>executed := executed c @ [''insert-node.sql'']\<rparr>))"
proof (intro impI conjI)
  assume inv: "ids_consistent (working c)"
  show "ids_consistent (working (snd (add_node data opt_id c)))"
    using insert_node_consistent [OF inv] by (simp add: add_node_def)
  show "ids_consistent (working (snd (add_nodes ns opt_ids c)))"
    by (rule add_nodes_consistent [OF inv])
  show "ids_consistent (working (snd (upsert_node idn data c)))"
    using upsert_node_inner_consistent [OF inv] by (simp add: upsert_node_def)
  show "ids_consistent (working (snd (upsert_nodes ns ids c)))"
    using upsert_each_consistent [OF inv] by (simp add: upsert_nodes_def)
  show "\<exists>body. nodes (working (snd (add_node data (Some idn) c))) (json_of_ident idn) = Some body
             \<and> body ''id'' = Some (json_of_ident idn)"
    if "fst (add_node data (Some idn) c) = Inr ()"
    using that insert_node_stored [of idn data c] by (simp add: add_node_def)
  show "\<exists>body. nodes (working (snd (upsert_node idn data c))) (json_of_ident idn) = Some body
             \<and> body ''id'' = Some (json_of_ident idn)"
    if ok: "fst (upsert_node idn data c) = Inr ()"
  proof (cases "find_node idn c = Map.empty")
    case True
    with ok insert_node_stored [of idn data c] show ?thesis
      by (simp add: upsert_node_def upsert_node_inner_def)
  next
    case False
    then show ?thesis
      by (auto simp: upsert_node_def upsert_node_inner_def Let_def execute_def
          update_node_sql_def set_id_def find_node_def split: option.splits)
  qed
  show "add_node data opt_id c = (Inl IntegrityError, c\<lparr>executed := executed c @ [''insert-node.sql'']\<rparr>)"
    if "opt_id = None \<and> heap c data ''id'' = None"
    using that by (simp add: add_node_def insert_node_def set_id_def Let_def execute_def
        insert_node_sql_def)
qed


theorem stored_id_invariant_witness:
  "ids_consistent (working (jobs_session [''id'' \<mapsto> JStr ''9'', ''name'' \<mapsto> JStr ''Woz'']))
   \<and> fst (add_node 0 (Some (IdStr ''7''))
            (jobs_session [''id'' \<mapsto> JStr ''9'', ''name'' \<mapsto> JStr ''Woz''])) = Inr ()
   \<and> ids_consistent (working (snd (add_node 0 (Some (IdStr ''7''))
            (jobs_session [''id'' \<mapsto> JStr ''9'', ''name'' \<mapsto> JStr ''Woz'']))))
   \<and> (\<exists>body. nodes (working (snd (add_node 0 (Some (IdStr ''7''))
            (jobs_session [''id'' \<mapsto> JStr ''9'', ''name'' \<mapsto> JStr ''Woz''])))) (JStr ''7'')
          = Some body \<and> body ''id'' = Some (JStr ''7''))"
proof -
  let ?c = "jobs_session [''id'' \<mapsto> JStr ''9'', ''name'' \<mapsto> JStr ''Woz'']"
  have inv: "ids_consistent (working ?c)"
    by (auto simp: ids_consistent_def jobs_session_def jobs_db_def split: if_splits)
  have ok: "fst (add_node 0 (Some (IdStr ''7'')) ?c) = Inr ()"
    by (simp add: add_node_def insert_node_def set_id_def execute_def insert_node_sql_def
        jobs_session_def jobs_db_def Let_def)
  from stored_id_invariant [where c = ?c and data = 0 and opt_id = "Some (IdStr ''7'')"
      and idn = "IdStr ''7''"] inv ok
  show ?thesis by simp
qed

section \<open>Properties of the edge store and of removal\<close>

text \<open>
  C5. In a state where nodes A and B are joined by an edge, in either direction,
  \<open>remove_node\<close> for A executes the edge deletion and then the node deletion, and
  succeeds; afterwards no edge has A as its source or target, the edges that do not
  touch A are all that is left, A is gone, and B is stored with the document it had.
  With foreign keys enforced, deleting A's row first would have raised.
\<close>

theorem remove_node_cascade:
  "nodes (working c) (json_of_ident a) \<noteq> None
   \<and> nodes (working c) b = Some b_doc \<and> b \<noteq> json_of_ident a
   \<and> ((json_of_ident a, b, props) \<in> set (edges (working c))
        \<or> (b, json_of_ident a, props) \<in> set (edges (working c)))
   \<longrightarrow>
     fst (remove_node a c) = Inr ()
     \<and> executed (snd (remove_node a c)) = executed c @ [''delete-edge.sql'', ''delete-node.sql'']
     \<and> \<not> referenced (json_of_ident a) (working (snd (remove_node a c)))
     \<and> edges (working (snd (remove_node a c)))
         = filter (\<lambda>(src, tgt, p). src \<noteq> json_of_ident a \<and> tgt \<noteq> json_of_ident a) (edges (working c))
     \<and> nodes (working (snd (remove_node a c))) (json_of_ident a) = None
     \<and> nodes (working (snd (remove_node a c))) b = Some b_doc
     \<and> (foreign_keys c \<longrightarrow>
          fst (execute ''delete-node.sql'' (delete_node_sql (foreign_keys c) (json_of_ident a)) c)
            = Inl IntegrityError)"
  by (auto simp: remove_node_def execute_def delete_edge_sql_def delete_node_sql_def referenced_def
      Let_def)

theorem remove_node_cascade_witness:
  "nodes (working founders_session) (json_of_ident (IdInt 2)) \<noteq> None
   \<and> nodes (working founders_session) (JStr ''3'') = Some [''id'' \<mapsto> JStr ''3'', ''name'' \<mapsto> JStr ''Jobs'']
   \<and> JStr ''3'' \<noteq> json_of_ident (IdInt 2)
   \<and> (json_of_ident (IdInt 2), JStr ''3'', Map.empty) \<in> set (edges (working founders_session))
   \<and> foreign_keys founders_session
   \<and> fst (remove_node (IdInt 2) founders_session) = Inr ()
   \<and> edges (working (snd (remove_node (IdInt 2) founders_session))) = []
   \<and> nodes (working (snd (remove_node (IdInt 2) founders_session))) (JStr ''3'')
       = Some [''id'' \<mapsto> JStr ''3'', ''name'' \<mapsto> JStr ''Jobs'']
   \<and> fst (execute ''delete-node.sql'' (delete_node_sql True (JInt 2)) founders_session)
       = Inl IntegrityError"
  using remove_node_cascade [where c = founders_session and a = "IdInt 2" and b = "JStr ''3''"
      and b_doc = "[''id'' \<mapsto> JStr ''3'', ''name'' \<mapsto> JStr ''Jobs'']" and props = Map.empty]
  by (simp add: founders_session_def founders_db_def)

section \<open>Properties of the traversal engine\<close>

text \<open>
  C6. In identifiers-only mode the path built by the loop extends the path so far, has
  no duplicates, and ends with the serialized target once the target is on it (lemmas
  \<open>walk_ids_extends\<close>, \<open>walk_ids_distinct\<close>, \<open>walk_ids_stops\<close>); when no row carries
  the serialized target, every row is consumed (\<open>walk_ids_exhausts\<close>). Without a target,
  though, the walk does not always run to exhaustion: \<^verbatim>\<open>json.dumps(None)\<close> is the text
  \<^verbatim>\<open>null\<close>, and a row whose identifier is that text stops the walk. Here the rows
  \<^verbatim>\<open>("null",)\<close>, \<^verbatim>\<open>("7",)\<close> are traversed with no target, and the path is
  \<^verbatim>\<open>["null"]\<close>.
\<close>

theorem traverse_without_target_stops_at_null:
  "fst (traverse (sample_world empty_db True Map.empty) (IdInt 2) None
          (\<lambda>with_bodies src d. [[SqlText ''null''], [SqlText ''7'']]) False)
     = Inr (Identifiers [SqlText ''null''])"
  by (simp add: traverse_def traverse_inner_def atomic_def sample_world_def json_dumps_def Let_def)

text \<open>
  C7. In body-inclusion mode, over rows of three columns, the path is made of every row
  up to and including the first one whose identifier is the serialized target and
  whose marker is \<^verbatim>\<open>"()"\<close>, with nothing left out and nothing deduplicated, and of
  every row when there is no such row. A row with the target's identifier and another
  marker does not stop the walk. This is what the unit of work returns on every
  session, and what \<open>traverse\<close> returns when the connection, the cursor, the pragma
  and the commit do not raise.
\<close>

theorem traverse_with_bodies:
  "((\<forall>r \<in> set (neighbors_fn True src (working c)). length r = 3) \<longrightarrow>
      traverse_inner neighbors_fn src tgt True c
        = (Inr (Records
             (takeWhile (\<lambda>r. \<not> is_target_node (json_dumps tgt) r)
                (neighbors_fn True src (working c))
              @ take 1 (dropWhile (\<lambda>r. \<not> is_target_node (json_dumps tgt) r)
                          (neighbors_fn True src (working c))))), c))
   \<and> (connect_error w = None \<and> cursor_error w = None \<and> pragma_error w = None
        \<and> commit_error w (begin_session w) = None
        \<and> (\<forall>r \<in> set (neighbors_fn True src (disk w)). length r = 3) \<longrightarrow>
        fst (traverse w src tgt neighbors_fn True)
          = Inr (Records
              (takeWhile (\<lambda>r. \<not> is_target_node (json_dumps tgt) r) (neighbors_fn True src (disk w))
               @ take 1 (dropWhile (\<lambda>r. \<not> is_target_node (json_dumps tgt) r)
                           (neighbors_fn True src (disk w))))))"
proof (intro conjI impI)
  assume "\<forall>r \<in> set (neighbors_fn True src (working c)). length r = 3"
  then show "traverse_inner neighbors_fn src tgt True c
        = (Inr (Records
             (takeWhile (\<lambda>r. \<not> is_target_node (json_dumps tgt) r)
                (neighbors_fn True src (working c))
              @ take 1 (dropWhile (\<lambda>r. \<not> is_target_node (json_dumps tgt) r)
                          (neighbors_fn True src (working c))))), c)"
    using walk_bodies_path [of "neighbors_fn True src (working c)" "json_dumps tgt" "[]"]
    by (simp add: traverse_inner_def Let_def)
next
  assume "connect_error w = None \<and> cursor_error w = None \<and> pragma_error w = None
        \<and> commit_error w (begin_session w) = None
        \<and> (\<forall>r \<in> set (neighbors_fn True src (disk w)). length r = 3)"
  then show "fst (traverse w src tgt neighbors_fn True)
          = Inr (Records
              (takeWhile (\<lambda>r. \<not> is_target_node (json_dumps tgt) r) (neighbors_fn True src (disk w))
               @ take 1 (dropWhile (\<lambda>r. \<not> is_target_node (json_dumps tgt) r)
                           (neighbors_fn True src (disk w)))))"
    using walk_bodies_path [of "neighbors_fn True src (disk w)" "json_dumps tgt" "[]"]
    by (simp add: traverse_def traverse_inner_def atomic_def begin_session_def Let_def)
qed

theorem traverse_with_bodies_witness:
  "connect_error (sample_world empty_db True Map.empty) = None
   \<and> cursor_error (sample_world empty_db True Map.empty) = None
   \<and> pragma_error (sample_world empty_db True Map.empty) = None
   \<and> commit_error (sample_world empty_db True Map.empty)
         (begin_session (sample_world empty_db True Map.empty)) = None
   \<and> list_all (\<lambda>r. length r = 3) apple_rows
   \<and> fst (traverse (sample_world empty_db True Map.empty) (IdInt 4) (Some (IdInt 5))
             (\<lambda>with_bodies src d. apple_rows) True)
       = Inr (Records
           [[SqlText ''4'', SqlText ''()'', SqlText ''{}''],
            [SqlText ''5'', SqlText ''->'', SqlText ''{}''],
            [SqlText ''1'', SqlText ''()'', SqlText ''{}''],
            [SqlText ''1'', SqlText ''()'', SqlText ''{}''],
            [SqlText ''5'', SqlText ''()'', SqlText ''{}'']])"
  using traverse_with_bodies [where w = "sample_world empty_db True Map.empty" and src = "IdInt 4"
      and tgt = "Some (IdInt 5)" and neighbors_fn = "\<lambda>with_bodies src d. apple_rows"
      and c = "begin_session (sample_world empty_db True Map.empty)"]
  by (simp add: sample_world_def apple_rows_def is_target_node_def json_dumps_examples
      list_all_iff)

section \<open>Properties of the bulk operations\<close>

text \<open>
  C8. Run through \<open>atomic\<close> in a world where no call of the driver raises, each bulk
  operation is all or nothing with respect to its single-row operation: bulk insert and
  \<open>add_node\<close>, bulk upsert and \<open>upsert_node\<close>, bulk connect and \<open>connect_nodes\<close>, bulk
  remove and \<open>remove_node\<close>, over the elements that \<^verbatim>\<open>zip\<close> pairs. It raises exactly
  when one of the single operations, applied in turn, raises, and then nothing is
  committed; otherwise what is committed is what all the single operations leave.
  A bulk connect succeeds exactly when every edge has both endpoints, and then commits
  all its edges, in order; otherwise it raises and commits none. A bulk insert of
  distinct dictionary objects succeeds exactly when every document to store has an
  \<^verbatim>\<open>"id"\<close> that is not null and not yet stored, and no two have the same; it then
  stores each of them under its \<^verbatim>\<open>"id"\<close> and changes no other node and no edge. A
  bulk upsert into a database whose documents carry their identifiers succeeds. A bulk
  remove succeeds, and removes every node named and every edge touching one of them.
  In every world, a bulk operation that raises leaves the file as it was.
\<close>

theorem bulk_operations_atomic:
  "(faultless w \<longrightarrow>
      all_or_nothing w (add_nodes ns opt_ids)
        (once_per_element (\<lambda>(i, n). add_node n i) (zip opt_ids ns))
      \<and> all_or_nothing w (upsert_nodes ns ids)
          (once_per_element (\<lambda>(i, n). upsert_node i n) (zip ids ns))
      \<and> all_or_nothing w (connect_many_nodes sources targets properties)
          (once_per_element (\<lambda>(s, t, p). connect_nodes s t p)
             (zip sources (zip targets properties)))
      \<and> all_or_nothing w (remove_nodes ids) (once_per_element remove_node ids)
      \<and> ((\<forall>e \<in> set (edge_rows sources targets properties).
            nodes (disk w) (fst e) \<noteq> None \<and> nodes (disk w) (fst (snd e)) \<noteq> None) \<longrightarrow>
          fst (atomic w (connect_many_nodes sources targets properties)) = Inr ()
          \<and> disk (snd (atomic w (connect_many_nodes sources targets properties)))
              = (disk w)\<lparr>edges := edges (disk w) @ edge_rows sources targets properties\<rparr>)
      \<and> ((\<exists>e \<in> set (edge_rows sources targets properties).
            nodes (disk w) (fst e) = None \<or> nodes (disk w) (fst (snd e)) = None) \<longrightarrow>
          fst (atomic w (connect_many_nodes sources targets properties)) = Inl IntegrityError
          \<and> disk (snd (atomic w (connect_many_nodes sources targets properties))) = disk w)
      \<and> (distinct (map snd (zip opt_ids ns)) \<longrightarrow>
            (fst (atomic w (add_nodes ns opt_ids)) = Inr () \<longleftrightarrow>
               (\<forall>b \<in> set (documents_to_store (objects w) opt_ids ns).
                   \<exists>k. b ''id'' = Some k \<and> k \<noteq> JNull \<and> nodes (disk w) k = None)
               \<and> distinct (map (\<lambda>b. b ''id'') (documents_to_store (objects w) opt_ids ns)))
            \<and> (fst (atomic w (add_nodes ns opt_ids)) = Inr () \<longrightarrow>
                 (\<forall>b \<in> set (documents_to_store (objects w) opt_ids ns).
                     \<exists>k. b ''id'' = Some k
                       \<and> nodes (disk (snd (atomic w (add_nodes ns opt_ids)))) k = Some b)
                 \<and> (\<forall>k. (\<forall>b \<in> set (documents_to_store (objects w) opt_ids ns). b ''id'' \<noteq> Some k)
                       \<longrightarrow> nodes (disk (snd (atomic w (add_nodes ns opt_ids)))) k
                             = nodes (disk w) k)
                 \<and> edges (disk (snd (atomic w (add_nodes ns opt_ids)))) = edges (disk w)))
      \<and> (ids_consistent (disk w) \<longrightarrow> fst (atomic w (upsert_nodes ns ids)) = Inr ())
      \<and> fst (atomic w (remove_nodes ids)) = Inr ()
      \<and> (\<forall>k. nodes (disk (snd (atomic w (remove_nodes ids)))) k
             = (if k \<in> set (map json_of_ident ids) then None else nodes (disk w) k))
      \<and> edges (disk (snd (atomic w (remove_nodes ids))))
          = filter (\<lambda>(src, tgt, p). src \<notin> set (map json_of_ident ids)
                                     \<and> tgt \<notin> set (map json_of_ident ids)) (edges (disk w)))
   \<and> (isl (fst (atomic w (add_nodes ns opt_ids))) \<longrightarrow>
         disk (snd (atomic w (add_nodes ns opt_ids))) = disk w)
   \<and> (isl (fst (atomic w (upsert_nodes ns ids))) \<longrightarrow>
         disk (snd (atomic w (upsert_nodes ns ids))) = disk w)
   \<and> (isl (fst (atomic w (connect_many_nodes sources targets properties))) \<longrightarrow>
         disk (snd (atomic w (connect_many_nodes sources targets properties))) = disk w)
   \<and> (isl (fst (atomic w (remove_nodes ids))) \<longrightarrow>
         disk (snd (atomic w (remove_nodes ids))) = disk w)"
proof -
  let ?c = "begin_session w"
  have fk: "foreign_keys ?c" and wk: "working ?c = disk w" and hp: "heap ?c = objects w"
    and du: "durable ?c = disk w"
    by (simp_all add: begin_session_def)
  let ?rows = "edge_rows sources targets properties"
  let ?docs = "documents_to_store (objects w) opt_ids ns"
  obtain bodies h' where params: "set_ids (zip opt_ids ns) (objects w) = (bodies, h')"
    by (cases "set_ids (zip opt_ids ns) (objects w)")
  have add_run: "add_nodes ns opt_ids ?c
      = executemany ''insert-node.sql'' insert_node_sql bodies (?c\<lparr>heap := h'\<rparr>)"
    using params hp by (simp add: add_nodes_def)
  have failures:
    "isl (fst (atomic w (add_nodes ns opt_ids))) \<longrightarrow>
       disk (snd (atomic w (add_nodes ns opt_ids))) = disk w"
    "isl (fst (atomic w (upsert_nodes ns ids))) \<longrightarrow>
       disk (snd (atomic w (upsert_nodes ns ids))) = disk w"
    "isl (fst (atomic w (connect_many_nodes sources targets properties))) \<longrightarrow>
       disk (snd (atomic w (connect_many_nodes sources targets properties))) = disk w"
    "isl (fst (atomic w (remove_nodes ids))) \<longrightarrow>
       disk (snd (atomic w (remove_nodes ids))) = disk w"
    using atomic_failure_keeps_durable [of w "add_nodes ns opt_ids"]
      atomic_failure_keeps_durable [of w "upsert_nodes ns ids"]
      atomic_failure_keeps_durable [of w "connect_many_nodes sources targets properties"]
      atomic_failure_keeps_durable [of w "remove_nodes ids"]
      bulk_durable [where c = ?c] du
    by auto
  have faultless_part:
     "all_or_nothing w (add_nodes ns opt_ids)
        (once_per_element (\<lambda>(i, n). add_node n i) (zip opt_ids ns))
      \<and> all_or_nothing w (upsert_nodes ns ids)
          (once_per_element (\<lambda>(i, n). upsert_node i n) (zip ids ns))
      \<and> all_or_nothing w (connect_many_nodes sources targets properties)
          (once_per_element (\<lambda>(s, t, p). connect_nodes s t p)
             (zip sources (zip targets properties)))
      \<and> all_or_nothing w (remove_nodes ids) (once_per_element remove_node ids)
      \<and> ((\<forall>e \<in> set ?rows.
            nodes (disk w) (fst e) \<noteq> None \<and> nodes (disk w) (fst (snd e)) \<noteq> None) \<longrightarrow>
          fst (atomic w (connect_many_nodes sources targets properties)) = Inr ()
          \<and> disk (snd (atomic w (connect_many_nodes sources targets properties)))
              = (disk w)\<lparr>edges := edges (disk w) @ ?rows\<rparr>)
      \<and> ((\<exists>e \<in> set ?rows.
            nodes (disk w) (fst e) = None \<or> nodes (disk w) (fst (snd e)) = None) \<longrightarrow>
          fst (atomic w (connect_many_nodes sources targets properties)) = Inl IntegrityError
          \<and> disk (snd (atomic w (connect_many_nodes sources targets properties))) = disk w)
      \<and> (distinct (map snd (zip opt_ids ns)) \<longrightarrow>
            (fst (atomic w (add_nodes ns opt_ids)) = Inr () \<longleftrightarrow>
               (\<forall>b \<in> set ?docs. \<exists>k. b ''id'' = Some k \<and> k \<noteq> JNull \<and> nodes (disk w) k = None)
               \<and> distinct (map (\<lambda>b. b ''id'') ?docs))
            \<and> (fst (atomic w (add_nodes ns opt_ids)) = Inr () \<longrightarrow>
                 (\<forall>b \<in> set ?docs.
                     \<exists>k. b ''id'' = Some k
                       \<and> nodes (disk (snd (atomic w (add_nodes ns opt_ids)))) k = Some b)
                 \<and> (\<forall>k. (\<forall>b \<in> set ?docs. b ''id'' \<noteq> Some k)
                       \<longrightarrow> nodes (disk (snd (atomic w (add_nodes ns opt_ids)))) k
                             = nodes (disk w) k)
                 \<and> edges (disk (snd (atomic w (add_nodes ns opt_ids)))) = edges (disk w)))
      \<and> (ids_consistent (disk w) \<longrightarrow> fst (atomic w (upsert_nodes ns ids)) = Inr ())
      \<and> fst (atomic w (remove_nodes ids)) = Inr ()
      \<and> (\<forall>k. nodes (disk (snd (atomic w (remove_nodes ids)))) k
             = (if k \<in> set (map json_of_ident ids) then None else nodes (disk w) k))
      \<and> edges (disk (snd (atomic w (remove_nodes ids))))
          = filter (\<lambda>(src, tgt, p). src \<notin> set (map json_of_ident ids)
                                     \<and> tgt \<notin> set (map json_of_ident ids)) (edges (disk w))"
    if ok: "faultless w"
  proof -
    note af = atomic_faultless [OF ok]
    have aon_add: "all_or_nothing w (add_nodes ns opt_ids)
        (once_per_element (\<lambda>(i, n). add_node n i) (zip opt_ids ns))"
      using add_nodes_once_per_element [of "zip opt_ids ns" ?c bodies h'] params hp
        bulk_durable(1) [where c = ?c and ns = ns and opt_ids = opt_ids]
      by (intro all_or_nothing_intro [OF ok]) (simp_all add: add_run)
    have aon_upsert: "all_or_nothing w (upsert_nodes ns ids)
          (once_per_element (\<lambda>(i, n). upsert_node i n) (zip ids ns))"
      using upsert_each_once_per_element [of "zip ids ns" ?c] bulk_durable(2) [where c = ?c and ns = ns and ids = ids]
      by (intro all_or_nothing_intro [OF ok]) (simp_all add: upsert_nodes_def)
    have aon_connect: "all_or_nothing w (connect_many_nodes sources targets properties)
          (once_per_element (\<lambda>(s, t, p). connect_nodes s t p)
             (zip sources (zip targets properties)))"
      using connect_many_once_per_element [of ?c "foreign_keys ?c"
          "zip sources (zip targets properties)"]
        bulk_durable(3) [where c = ?c and sources = sources and targets = targets and properties = properties]
      by (intro all_or_nothing_intro [OF ok]) (simp_all add: connect_many_nodes_def edge_rows_def)
    have aon_remove: "all_or_nothing w (remove_nodes ids) (once_per_element remove_node ids)"
      using remove_nodes_once_per_element [of ids ?c] bulk_durable(4) [where c = ?c and ids = ids]
      by (intro all_or_nothing_intro [OF ok]) simp_all
    have connect_ok: "fst (atomic w (connect_many_nodes sources targets properties)) = Inr ()
          \<and> disk (snd (atomic w (connect_many_nodes sources targets properties)))
              = (disk w)\<lparr>edges := edges (disk w) @ ?rows\<rparr>"
      if "\<forall>e \<in> set ?rows. nodes (disk w) (fst e) \<noteq> None \<and> nodes (disk w) (fst (snd e)) \<noteq> None"
      using executemany_insert_edge_ok [of ?rows ?c "''insert-edge.sql''" True] that
        af [of "connect_many_nodes sources targets properties"] fk wk
      by (simp add: connect_many_nodes_def)
    have connect_fails: "fst (atomic w (connect_many_nodes sources targets properties))
            = Inl IntegrityError
          \<and> disk (snd (atomic w (connect_many_nodes sources targets properties))) = disk w"
      if "\<exists>e \<in> set ?rows. nodes (disk w) (fst e) = None \<or> nodes (disk w) (fst (snd e)) = None"
      using executemany_insert_edge_fails [of ?rows ?c "''insert-edge.sql''"] that
        af [of "connect_many_nodes sources targets properties"] fk wk du
        bulk_durable(3) [where c = ?c and sources = sources and targets = targets and properties = properties]
      by (simp add: connect_many_nodes_def)
    have add_explicit:
      "(fst (atomic w (add_nodes ns opt_ids)) = Inr () \<longleftrightarrow>
               (\<forall>b \<in> set ?docs. \<exists>k. b ''id'' = Some k \<and> k \<noteq> JNull \<and> nodes (disk w) k = None)
               \<and> distinct (map (\<lambda>b. b ''id'') ?docs))
       \<and> (fst (atomic w (add_nodes ns opt_ids)) = Inr () \<longrightarrow>
                 (\<forall>b \<in> set ?docs.
                     \<exists>k. b ''id'' = Some k
                       \<and> nodes (disk (snd (atomic w (add_nodes ns opt_ids)))) k = Some b)
                 \<and> (\<forall>k. (\<forall>b \<in> set ?docs. b ''id'' \<noteq> Some k)
                       \<longrightarrow> nodes (disk (snd (atomic w (add_nodes ns opt_ids)))) k
                             = nodes (disk w) k)
                 \<and> edges (disk (snd (atomic w (add_nodes ns opt_ids)))) = edges (disk w))"
      if dist: "distinct (map snd (zip opt_ids ns))"
    proof -
      let ?c' = "?c\<lparr>heap := h'\<rparr>"
      let ?run = "executemany ''insert-node.sql'' insert_node_sql bodies ?c'"
      have docs: "bodies = ?docs"
        using documents_to_store_set_ids [OF dist, of "objects w"] params by simp
      have res: "fst (atomic w (add_nodes ns opt_ids)) = fst ?run"
        using af [of "add_nodes ns opt_ids"] by (simp add: add_run)
      have iff: "fst ?run = Inr () \<longleftrightarrow>
               (\<forall>b \<in> set ?docs. \<exists>k. b ''id'' = Some k \<and> k \<noteq> JNull \<and> nodes (disk w) k = None)
               \<and> distinct (map (\<lambda>b. b ''id'') ?docs)"
        using executemany_insert_node_iff [of "''insert-node.sql''" bodies ?c'] wk docs
        by simp
      have state: "(\<forall>b \<in> set ?docs.
                     \<exists>k. b ''id'' = Some k
                       \<and> nodes (disk (snd (atomic w (add_nodes ns opt_ids)))) k = Some b)
                 \<and> (\<forall>k. (\<forall>b \<in> set ?docs. b ''id'' \<noteq> Some k)
                       \<longrightarrow> nodes (disk (snd (atomic w (add_nodes ns opt_ids)))) k
                             = nodes (disk w) k)
                 \<and> edges (disk (snd (atomic w (add_nodes ns opt_ids)))) = edges (disk w)"
        if finished: "fst ?run = Inr ()"
      proof -
        have dk: "disk (snd (atomic w (add_nodes ns opt_ids))) = working (snd ?run)"
          using af [of "add_nodes ns opt_ids"] finished by (simp add: add_run)
        from executemany_insert_node_ok [OF finished] executemany_insert_node_others [OF finished]
        show ?thesis
          unfolding dk using wk docs by simp
      qed
      from res iff state show ?thesis by simp
    qed
    have upsert_ok: "fst (atomic w (upsert_nodes ns ids)) = Inr ()"
      if "ids_consistent (disk w)"
      using upsert_each_succeeds [of ?c "zip ids ns"] that wk af [of "upsert_nodes ns ids"]
      by (simp add: upsert_nodes_def)
    have remove: "fst (atomic w (remove_nodes ids)) = Inr ()
      \<and> (\<forall>k. nodes (disk (snd (atomic w (remove_nodes ids)))) k
             = (if k \<in> set (map json_of_ident ids) then None else nodes (disk w) k))
      \<and> edges (disk (snd (atomic w (remove_nodes ids))))
          = filter (\<lambda>(src, tgt, p). src \<notin> set (map json_of_ident ids)
                                     \<and> tgt \<notin> set (map json_of_ident ids)) (edges (disk w))"
      using remove_nodes_result [of ids ?c] af [of "remove_nodes ids"] wk by simp
    from aon_add aon_upsert aon_connect aon_remove connect_ok connect_fails add_explicit
      upsert_ok remove
    show ?thesis by blast
  qed
  from faultless_part failures show ?thesis
    by blast
qed

theorem bulk_operations_atomic_witness:
  "faultless founders_world
   \<and> distinct (map snd (zip [Some (IdInt 4), Some (IdInt 5)] [0::nat, 1]))
   \<and> fst (atomic founders_world (add_nodes [0, 1] [Some (IdInt 4), Some (IdInt 5)])) = Inr ()
   \<and> nodes (disk (snd (atomic founders_world (add_nodes [0, 1] [Some (IdInt 4), Some (IdInt 5)]))))
        (JInt 4) = Some [''name'' \<mapsto> JStr ''Wayne'', ''id'' \<mapsto> JInt 4]
   \<and> nodes (disk (snd (atomic founders_world (add_nodes [0, 1] [Some (IdInt 4), Some (IdInt 5)]))))
        (JInt 5) = Some [''name'' \<mapsto> JStr ''Markkula'', ''id'' \<mapsto> JInt 5]
   \<and> fst (atomic founders_world (add_nodes [0, 1] [Some (IdInt 4), Some (IdStr ''3'')]))
        = Inl IntegrityError
   \<and> disk (snd (atomic founders_world (add_nodes [0, 1] [Some (IdInt 4), Some (IdStr ''3'')])))
        = founders_db
   \<and> ids_consistent (disk founders_world)
   \<and> fst (atomic founders_world (upsert_nodes [0, 1] [IdStr ''3'', IdInt 7])) = Inr ()
   \<and> nodes (disk (snd (atomic founders_world (upsert_nodes [0, 1] [IdStr ''3'', IdInt 7]))))
        (JStr ''3'') = Some [''id'' \<mapsto> JStr ''3'', ''name'' \<mapsto> JStr ''Wayne'']
   \<and> nodes (disk (snd (atomic founders_world (upsert_nodes [0, 1] [IdStr ''3'', IdInt 7]))))
        (JInt 7) = Some [''name'' \<mapsto> JStr ''Markkula'', ''id'' \<mapsto> JInt 7]
   \<and> fst (atomic founders_world
            (connect_many_nodes [IdInt 2, IdInt 2] [IdStr ''3'', IdStr ''nonexistent'']
               [Map.empty, Map.empty])) = Inl IntegrityError
   \<and> disk (snd (atomic founders_world
            (connect_many_nodes [IdInt 2, IdInt 2] [IdStr ''3'', IdStr ''nonexistent'']
               [Map.empty, Map.empty]))) = founders_db
   \<and> fst (atomic founders_world (connect_many_nodes [IdStr ''3''] [IdInt 2] [Map.empty])) = Inr ()
   \<and> edges (disk (snd (atomic founders_world
            (connect_many_nodes [IdStr ''3''] [IdInt 2] [Map.empty]))))
       = [(JInt 2, JStr ''3'', Map.empty), (JStr ''3'', JInt 2, Map.empty)]
   \<and> fst (atomic founders_world (remove_nodes [IdInt 2])) = Inr ()
   \<and> edges (disk (snd (atomic founders_world (remove_nodes [IdInt 2])))) = []
   \<and> nodes (disk (snd (atomic founders_world (remove_nodes [IdInt 2])))) (JInt 2) = None
   \<and> nodes (disk (snd (atomic founders_world (remove_nodes [IdInt 2])))) (JStr ''3'')
       = Some [''id'' \<mapsto> JStr ''3'', ''name'' \<mapsto> JStr ''Jobs'']"
proof -
  let ?w = founders_world
  have fl: "faultless ?w" and dk: "disk ?w = founders_db"
    by (simp_all add: founders_world_def pair_world_def faultless_def)
  have inv: "ids_consistent (disk ?w)"
    by (auto simp: ids_consistent_def founders_world_def pair_world_def founders_db_def
        split: if_splits)
  have c0: "begin_session ?w =
      \<lparr>working = founders_db, durable = founders_db, foreign_keys = True,
       executed = [''PRAGMA foreign_keys = TRUE;''],
       heap = (\<lambda>a. Map.empty)(0 := [''name'' \<mapsto> JStr ''Wayne''],
                                 1 := [''name'' \<mapsto> JStr ''Markkula''])\<rparr>"
    by (simp add: begin_session_def founders_world_def pair_world_def)
  note first = bulk_operations_atomic [where w = ?w and ns = "[0, 1]"
      and opt_ids = "[Some (IdInt 4), Some (IdInt 5)]" and ids = "[IdStr ''3'', IdInt 7]"
      and sources = "[IdInt 2, IdInt 2]" and targets = "[IdStr ''3'', IdStr ''nonexistent'']"
      and properties = "[Map.empty, Map.empty]"]
  note second = bulk_operations_atomic [where w = ?w and ns = "[0, 1]"
      and opt_ids = "[Some (IdInt 4), Some (IdStr ''3'')]" and ids = "[IdInt 2]"
      and sources = "[IdStr ''3'']" and targets = "[IdInt 2]" and properties = "[Map.empty]"]
  have add_ok: "all_or_nothing ?w (add_nodes [0, 1] [Some (IdInt 4), Some (IdInt 5)])
      (once_per_element (\<lambda>(i, n). add_node n i) (zip [Some (IdInt 4), Some (IdInt 5)] [0, 1]))"
    using first fl by blast
  have add_ok_run: "fst (atomic ?w (add_nodes [0, 1] [Some (IdInt 4), Some (IdInt 5)])) = Inr ()
     \<and> nodes (disk (snd (atomic ?w (add_nodes [0, 1] [Some (IdInt 4), Some (IdInt 5)]))))
        (JInt 4) = Some [''name'' \<mapsto> JStr ''Wayne'', ''id'' \<mapsto> JInt 4]
     \<and> nodes (disk (snd (atomic ?w (add_nodes [0, 1] [Some (IdInt 4), Some (IdInt 5)]))))
        (JInt 5) = Some [''name'' \<mapsto> JStr ''Markkula'', ''id'' \<mapsto> JInt 5]"
    using add_ok
    by (simp add: all_or_nothing_def c0 add_node_def insert_node_def set_id_def execute_def
        insert_node_sql_def founders_db_def Let_def)
  have add_fails: "all_or_nothing ?w (add_nodes [0, 1] [Some (IdInt 4), Some (IdStr ''3'')])
      (once_per_element (\<lambda>(i, n). add_node n i) (zip [Some (IdInt 4), Some (IdStr ''3'')] [0, 1]))"
    using second fl by blast
  have add_fails_run:
    "fst (atomic ?w (add_nodes [0, 1] [Some (IdInt 4), Some (IdStr ''3'')])) = Inl IntegrityError
     \<and> disk (snd (atomic ?w (add_nodes [0, 1] [Some (IdInt 4), Some (IdStr ''3'')]))) = founders_db"
    using add_fails dk
    by (simp add: all_or_nothing_def c0 add_node_def insert_node_def set_id_def execute_def
        insert_node_sql_def founders_db_def Let_def)
  have upsert: "all_or_nothing ?w (upsert_nodes [0, 1] [IdStr ''3'', IdInt 7])
      (once_per_element (\<lambda>(i, n). upsert_node i n) (zip [IdStr ''3'', IdInt 7] [0, 1]))"
    and upsert_ok: "fst (atomic ?w (upsert_nodes [0, 1] [IdStr ''3'', IdInt 7])) = Inr ()"
    using first fl inv by blast+
  have upsert_run:
    "nodes (disk (snd (atomic ?w (upsert_nodes [0, 1] [IdStr ''3'', IdInt 7])))) (JStr ''3'')
        = Some [''id'' \<mapsto> JStr ''3'', ''name'' \<mapsto> JStr ''Wayne'']
     \<and> nodes (disk (snd (atomic ?w (upsert_nodes [0, 1] [IdStr ''3'', IdInt 7])))) (JInt 7)
        = Some [''name'' \<mapsto> JStr ''Markkula'', ''id'' \<mapsto> JInt 7]"
    using upsert
    by (simp add: all_or_nothing_def c0 upsert_node_def upsert_node_inner_def find_node_def
        insert_node_def set_id_def execute_def insert_node_sql_def update_node_sql_def
        founders_db_def Let_def fun_upd_twist)
  have missing: "\<exists>e \<in> set (edge_rows [IdInt 2, IdInt 2] [IdStr ''3'', IdStr ''nonexistent'']
                     [Map.empty, Map.empty]).
          nodes (disk ?w) (fst e) = None \<or> nodes (disk ?w) (fst (snd e)) = None"
    by (simp add: edge_rows_def dk founders_db_def)
  have present: "\<forall>e \<in> set (edge_rows [IdStr ''3''] [IdInt 2] [Map.empty]).
          nodes (disk ?w) (fst e) \<noteq> None \<and> nodes (disk ?w) (fst (snd e)) \<noteq> None"
    by (simp add: edge_rows_def dk founders_db_def)
  have connect_fails: "fst (atomic ?w (connect_many_nodes [IdInt 2, IdInt 2]
                    [IdStr ''3'', IdStr ''nonexistent''] [Map.empty, Map.empty])) = Inl IntegrityError
     \<and> disk (snd (atomic ?w (connect_many_nodes [IdInt 2, IdInt 2]
                    [IdStr ''3'', IdStr ''nonexistent''] [Map.empty, Map.empty]))) = disk ?w"
    using first fl missing by blast
  have connect_ok: "fst (atomic ?w (connect_many_nodes [IdStr ''3''] [IdInt 2] [Map.empty])) = Inr ()
     \<and> disk (snd (atomic ?w (connect_many_nodes [IdStr ''3''] [IdInt 2] [Map.empty])))
         = (disk ?w)\<lparr>edges := edges (disk ?w) @ edge_rows [IdStr ''3''] [IdInt 2] [Map.empty]\<rparr>"
    using second fl present by blast
  have connect_edges:
    "edges ((disk ?w)\<lparr>edges := edges (disk ?w) @ edge_rows [IdStr ''3''] [IdInt 2] [Map.empty]\<rparr>)
          = [(JInt 2, JStr ''3'', Map.empty), (JStr ''3'', JInt 2, Map.empty)]"
    by (simp add: dk founders_db_def edge_rows_def)
  have remove: "fst (atomic ?w (remove_nodes [IdInt 2])) = Inr ()
      \<and> (\<forall>k. nodes (disk (snd (atomic ?w (remove_nodes [IdInt 2])))) k
             = (if k \<in> set (map json_of_ident [IdInt 2]) then None else nodes (disk ?w) k))
      \<and> edges (disk (snd (atomic ?w (remove_nodes [IdInt 2]))))
          = filter (\<lambda>(src, tgt, p). src \<notin> set (map json_of_ident [IdInt 2])
                                     \<and> tgt \<notin> set (map json_of_ident [IdInt 2])) (edges (disk ?w))"
    using second fl by blast
  then have remove_run: "fst (atomic ?w (remove_nodes [IdInt 2])) = Inr ()
     \<and> edges (disk (snd (atomic ?w (remove_nodes [IdInt 2])))) = []
     \<and> nodes (disk (snd (atomic ?w (remove_nodes [IdInt 2])))) (JInt 2) = None
     \<and> nodes (disk (snd (atomic ?w (remove_nodes [IdInt 2])))) (JStr ''3'')
         = Some [''id'' \<mapsto> JStr ''3'', ''name'' \<mapsto> JStr ''Jobs'']"
    by (simp add: dk founders_db_def)
  from fl inv add_ok_run add_fails_run upsert_ok upsert_run connect_fails connect_ok
    connect_edges remove_run dk
  show ?thesis
    by simp
qed

section \<open>Properties of the query compiler\<close>

text \<open>
  C9. For every pair of templates, every list of clause shapes, every tree flag and
  every key there is one query text such that, whatever the bindings, the decoder and
  the cursor, a search is the decoded answer of the cursor to that text with those
  bindings: the text is the same for all bindings, and the bindings reach the cursor as
  bound values and in no other way.
\<close>

theorem query_text_independent_of_bindings:
  fixes bindings :: "'b list"
  shows "\<exists>query. \<forall>(bindings :: 'b list) loads cursor_execute.
     find_nodes search_template loads
        (map (\<lambda>(key, predicate, joiner, tree, tree_with_key).
                generate_clause clause_template key predicate joiner tree tree_with_key) shapes)
        bindings tree_query key cursor_execute
      = parse_search_results loads (cursor_execute query bindings) 0"
  by (auto simp: find_nodes_def Let_def)

theorem query_text_independent_of_bindings_witness:
  "\<exists>query. \<forall>(bindings :: sqlval list) loads cursor_execute.
     find_nodes (\<lambda>args. ''SELECT'') loads
        (map (\<lambda>(key, predicate, joiner, tree, tree_with_key).
                generate_clause (\<lambda>args. ''WHERE'') key predicate joiner tree tree_with_key)
           [(Some ''name'', None, None, False, False)])
        bindings False None cursor_execute
      = parse_search_results loads (cursor_execute query bindings) 0"
  by (rule query_text_independent_of_bindings)

section \<open>Aliasing\<close>

text \<open>
  C10. Inserting a node with an identifier writes \<^verbatim>\<open>"id"\<close> into the caller's own
  dictionary: after \<open>add_node\<close>, and after \<open>upsert_node\<close> when it takes the insert
  branch, the object at the address that was passed holds its former content with
  \<^verbatim>\<open>"id"\<close> set to the identifier, whether or not the row could be written. No other
  object changes.
\<close>

theorem insert_mutates_argument:
  "heap (snd (add_node data (Some idn) c)) data
     = (heap c data)(''id'' \<mapsto> json_of_ident idn)
   \<and> (find_node idn c = Map.empty \<longrightarrow>
        heap (snd (upsert_node idn data c)) data
          = (heap c data)(''id'' \<mapsto> json_of_ident idn))
   \<and> (\<forall>other. other \<noteq> data \<longrightarrow>
        heap (snd (add_node data (Some idn) c)) other = heap c other)"
  by (simp add: add_node_def upsert_node_def upsert_node_inner_def insert_node_def set_id_def
      execute_def Let_def split: sum.splits)

theorem insert_mutates_argument_witness:
  "find_node (IdStr ''7'') (jobs_session [''name'' \<mapsto> JStr ''Woz'']) = Map.empty
   \<and> heap (snd (upsert_node (IdStr ''7'') 0 (jobs_session [''name'' \<mapsto> JStr ''Woz'']))) 0
       = [''name'' \<mapsto> JStr ''Woz'', ''id'' \<mapsto> JStr ''7'']
   \<and> heap (snd (add_node 0 (Some (IdStr ''7'')) (jobs_session [''name'' \<mapsto> JStr ''Woz'']))) 0
       = [''name'' \<mapsto> JStr ''Woz'', ''id'' \<mapsto> JStr ''7'']
   \<and> (1::nat) \<noteq> 0
   \<and> heap (snd (add_node 0 (Some (IdStr ''7'')) (jobs_session [''name'' \<mapsto> JStr ''Woz'']))) 1
       = Map.empty"
  using insert_mutates_argument [where c = "jobs_session [''name'' \<mapsto> JStr ''Woz'']"
      and idn = "IdStr ''7''" and data = 0]
  by (simp add: find_node_def jobs_session_def jobs_db_def)

end
